theory Spec2Isabelle
  imports Complex_Main "HOL-Library.Log_Nat"
begin

section \<open>JavaScript strings\<close>

text \<open>
  A string is a list of UTF-16 code units; the model covers the code units below 256
  (Latin-1), one \<^typ>\<open>char\<close> each, so \<open>length\<close> is the \<open>.length\<close> of the source.
\<close>

definition isSpace :: "char \<Rightarrow> bool" where
  \<comment> \<open>the class \<open>\s\<close> of a regular expression, which is also what \<open>trim\<close> removes\<close>
  "isSpace c = (c \<in> set [CHR 0x09, CHR 0x0A, CHR 0x0B, CHR 0x0C, CHR 0x0D, CHR 0x20, CHR 0xA0])"

definition isWordChar :: "char \<Rightarrow> bool" where
  \<comment> \<open>the class \<open>\w\<close>: \<open>[A-Za-z0-9_]\<close>\<close>
  "isWordChar c =
     (c \<in> set ''ABCDEFGHIJKLMNOPQRSTUVWXYZabcdefghijklmnopqrstuvwxyz0123456789_'')"

definition upper_chars :: string where
  "upper_chars = ''ABCDEFGHIJKLMNOPQRSTUVWXYZ'' @
     [CHR 0xC0, CHR 0xC1, CHR 0xC2, CHR 0xC3, CHR 0xC4, CHR 0xC5, CHR 0xC6, CHR 0xC7,
      CHR 0xC8, CHR 0xC9, CHR 0xCA, CHR 0xCB, CHR 0xCC, CHR 0xCD, CHR 0xCE, CHR 0xCF,
      CHR 0xD0, CHR 0xD1, CHR 0xD2, CHR 0xD3, CHR 0xD4, CHR 0xD5, CHR 0xD6,
      CHR 0xD8, CHR 0xD9, CHR 0xDA, CHR 0xDB, CHR 0xDC, CHR 0xDD, CHR 0xDE]"

definition lower_chars :: string where
  "lower_chars = ''abcdefghijklmnopqrstuvwxyz'' @
     [CHR 0xE0, CHR 0xE1, CHR 0xE2, CHR 0xE3, CHR 0xE4, CHR 0xE5, CHR 0xE6, CHR 0xE7,
      CHR 0xE8, CHR 0xE9, CHR 0xEA, CHR 0xEB, CHR 0xEC, CHR 0xED, CHR 0xEE, CHR 0xEF,
      CHR 0xF0, CHR 0xF1, CHR 0xF2, CHR 0xF3, CHR 0xF4, CHR 0xF5, CHR 0xF6,
      CHR 0xF8, CHR 0xF9, CHR 0xFA, CHR 0xFB, CHR 0xFC, CHR 0xFD, CHR 0xFE]"

definition lower_char :: "char \<Rightarrow> char" where
  "lower_char c = (case map_of (zip upper_chars lower_chars) c of Some l \<Rightarrow> l | None \<Rightarrow> c)"

definition toLowerCase :: "string \<Rightarrow> string" where
  "toLowerCase s = map lower_char s"

definition canonicalize :: "char \<Rightarrow> char" where
  \<comment> \<open>how a regular expression with the flag \<open>i\<close> compares two code units: by their
      upper-case forms (a code unit whose upper case lies outside Latin-1 stays itself)\<close>
  "canonicalize c = (case map_of (zip lower_chars upper_chars) c of Some u \<Rightarrow> u | None \<Rightarrow> c)"

definition trim :: "string \<Rightarrow> string" where
  "trim s = rev (dropWhile isSpace (rev (dropWhile isSpace s)))"

fun startsWith :: "string \<Rightarrow> string \<Rightarrow> bool" where
  "startsWith s [] = True"
| "startsWith [] (p # ps) = False"
| "startsWith (c # cs) (p # ps) = (c = p \<and> startsWith cs ps)"

definition js_includes :: "'a list \<Rightarrow> 'a \<Rightarrow> bool" where
  \<comment> \<open>\<open>Array.prototype.includes\<close>, and \<open>String.prototype.includes\<close> of one code unit\<close>
  "js_includes xs x = (x \<in> set xs)"

fun join :: "string \<Rightarrow> string list \<Rightarrow> string" where
  "join sep [] = []"
| "join sep [x] = x"
| "join sep (x # y # ys) = x @ sep @ join sep (y # ys)"

section \<open>JavaScript numbers\<close>

text \<open>
  A number is an IEEE 754 double: a finite value, which is a real \<open>m * 2 powi q\<close> with
  \<open>\<bar>m\<bar> < 2 ^ 53\<close> and \<open>- 1074 \<le> q\<close>, one of the two infinities, or NaN. Every operation
  computes the exact result and rounds it to the nearest double, a tie going to the even
  one, and to an infinity from \<open>2 powi 1024\<close> on. The zero has no sign here: the source
  never divides by a zero that could be negative and never prints one.
\<close>

datatype number = Num real | Infinity | MinusInfinity | NaN

definition exponent :: "real \<Rightarrow> int" where
  \<comment> \<open>for a positive \<open>x\<close>, the \<open>e\<close> with \<open>2 powi e \<le> x < 2 powi (e + 1)\<close>\<close>
  "exponent x = (if 1 \<le> x then bitlen \<lfloor>x\<rfloor> - 1 else - bitlen (\<lceil>1 / x\<rceil> - 1))"

definition round_half_even :: "real \<Rightarrow> int" where
  "round_half_even z =
     (let f = \<lfloor>z\<rfloor>; r = z - of_int f
      in if r < 1 / 2 then f else if 1 / 2 < r then f + 1 else if even f then f else f + 1)"

definition round_pos :: "real \<Rightarrow> real" where
  \<comment> \<open>a positive real rounded to 53 significant bits, or to a multiple of \<open>2 powi - 1074\<close>
      in the subnormal range\<close>
  "round_pos a =
     (let q = max (exponent a - 52) (- 1074)
      in of_int (round_half_even (a / 2 powi q)) * 2 powi q)"

definition rnd :: "real \<Rightarrow> real" where
  "rnd x = (if x = 0 then 0 else if 0 < x then round_pos x else - round_pos (- x))"

definition to_double :: "real \<Rightarrow> number" where
  \<comment> \<open>the double of an exact result\<close>
  "to_double x =
     (if 2 powi 1024 \<le> \<bar>rnd x\<bar> then (if 0 < x then Infinity else MinusInfinity)
      else Num (rnd x))"

definition lit :: "real \<Rightarrow> number" where
  \<comment> \<open>a decimal literal of the source\<close>
  "lit x = to_double x"

definition signum :: "number \<Rightarrow> int" where
  "signum a = (case a of Num x \<Rightarrow> (if 0 < x then 1 else if x < 0 then - 1 else 0)
                | Infinity \<Rightarrow> 1 | MinusInfinity \<Rightarrow> - 1 | NaN \<Rightarrow> 0)"

definition js_neg :: "number \<Rightarrow> number" where
  "js_neg a = (case a of Num x \<Rightarrow> Num (- x) | Infinity \<Rightarrow> MinusInfinity
                | MinusInfinity \<Rightarrow> Infinity | NaN \<Rightarrow> NaN)"

fun js_add :: "number \<Rightarrow> number \<Rightarrow> number" where
  "js_add (Num x) (Num y) = to_double (x + y)"
| "js_add NaN b = NaN"
| "js_add a NaN = NaN"
| "js_add Infinity MinusInfinity = NaN"
| "js_add MinusInfinity Infinity = NaN"
| "js_add Infinity b = Infinity"
| "js_add a Infinity = Infinity"
| "js_add MinusInfinity b = MinusInfinity"
| "js_add a MinusInfinity = MinusInfinity"

definition js_sub :: "number \<Rightarrow> number \<Rightarrow> number" where
  "js_sub a b = js_add a (js_neg b)"

fun js_mul :: "number \<Rightarrow> number \<Rightarrow> number" where
  "js_mul (Num x) (Num y) = to_double (x * y)"
| "js_mul a b =
     (if a = NaN \<or> b = NaN \<or> signum a = 0 \<or> signum b = 0 then NaN
      else if signum a = signum b then Infinity else MinusInfinity)"

fun js_div :: "number \<Rightarrow> number \<Rightarrow> number" where
  "js_div (Num x) (Num y) =
     (if y = 0 then (if x = 0 then NaN else if 0 < x then Infinity else MinusInfinity)
      else to_double (x / y))"
| "js_div NaN b = NaN"
| "js_div a NaN = NaN"
| "js_div (Num x) b = Num 0"
| "js_div a (Num y) = (if (signum a = 1) = (0 \<le> y) then Infinity else MinusInfinity)"
| "js_div a b = NaN"

fun js_lt :: "number \<Rightarrow> number \<Rightarrow> bool" where
  "js_lt (Num x) (Num y) = (x < y)"
| "js_lt NaN b = False"
| "js_lt a NaN = False"
| "js_lt a MinusInfinity = False"
| "js_lt MinusInfinity b = True"
| "js_lt Infinity b = False"
| "js_lt a Infinity = True"

definition js_le :: "number \<Rightarrow> number \<Rightarrow> bool" where
  "js_le a b = (js_lt a b \<or> (a = b \<and> a \<noteq> NaN))"

definition js_gt :: "number \<Rightarrow> number \<Rightarrow> bool" where
  "js_gt a b = js_lt b a"

definition js_ge :: "number \<Rightarrow> number \<Rightarrow> bool" where
  "js_ge a b = js_le b a"

definition falsy :: "number \<Rightarrow> bool" where
  \<comment> \<open>the numbers that \<open>||\<close> replaces: zero and NaN\<close>
  "falsy a = (a = Num 0 \<or> a = NaN)"

definition Math_round :: "number \<Rightarrow> number" where
  \<comment> \<open>the nearest integer, a tie going up\<close>
  "Math_round a = (case a of Num x \<Rightarrow> Num (of_int \<lfloor>x + 1 / 2\<rfloor>) | _ \<Rightarrow> a)"

definition Math_min :: "number \<Rightarrow> number \<Rightarrow> number" where
  "Math_min a b = (if a = NaN \<or> b = NaN then NaN else if js_lt b a then b else a)"

definition of_count :: "nat \<Rightarrow> number" where
  \<comment> \<open>a length or a counter: an integer below \<open>2 ^ 32\<close>, which is a double\<close>
  "of_count n = Num (real n)"

definition hundredths :: "number \<Rightarrow> number" where
  \<comment> \<open>\<open>Math.round(x * 100) / 100\<close>\<close>
  "hundredths x = js_div (Math_round (js_mul x (Num 100))) (Num 100)"

section \<open>QueryClassifier\<close>

datatype query_type = greeting | typo | small_talk | clarification | meta | question

record QueryClassificationResult =
  type :: query_type
  confidence :: number
  skip_validation :: bool

text \<open>
  The five patterns are alternations of literal texts, with the flag \<open>i\<close>; four are
  anchored at the start of the input (\<open>^\<close>) and the typo pattern is not.
\<close>

datatype regex = Anchored "string list" | Unanchored "string list"

fun matches_at :: "string \<Rightarrow> string \<Rightarrow> bool" where
  \<comment> \<open>the literal text matches at the start of the input, case-insensitively\<close>
  "matches_at [] s = True"
| "matches_at (p # ps) [] = False"
| "matches_at (p # ps) (c # cs) = (canonicalize p = canonicalize c \<and> matches_at ps cs)"

definition alternation_at :: "string list \<Rightarrow> string \<Rightarrow> bool" where
  "alternation_at alts s = list_ex (\<lambda>p. matches_at p s) alts"

fun search :: "string list \<Rightarrow> string \<Rightarrow> bool" where
  \<comment> \<open>an unanchored alternation: tried at every position of the input\<close>
  "search alts [] = alternation_at alts []"
| "search alts (c # cs) = (alternation_at alts (c # cs) \<or> search alts cs)"

fun test :: "regex \<Rightarrow> string \<Rightarrow> bool" where
  "test (Anchored alts) s = alternation_at alts s"
| "test (Unanchored alts) s = search alts s"

definition greeting_texts :: "string list" where
  "greeting_texts = [''hi'', ''hello'', ''hey'', ''good morning'', ''good afternoon'',
     ''good evening'', ''greetings'', ''sup'', ''what's up'']"

definition typo_texts :: "string list" where
  "typo_texts = [''helo'', ''whta'', ''thnak'', ''recieve'', ''seperate'', ''occured'',
     ''definately'', ''accomodate'', ''begining'', ''neccessary'']"

definition small_talk_texts :: "string list" where
  "small_talk_texts = [''how are you'', ''what's up'', ''nice weather'', ''how's it going'',
     ''how's your day'']"

definition clarification_texts :: "string list" where
  "clarification_texts = [''what do you mean'', ''can you repeat'', ''can you explain'',
     ''i don't understand'', ''what does that mean'']"

definition meta_texts :: "string list" where
  "meta_texts = [''what can you help with'', ''what's your name'', ''who are you'',
     ''what are you'', ''what do you do'']"

definition patterns :: "(query_type \<times> regex) list" where
  \<comment> \<open>the entries of the \<open>patterns\<close> object, in insertion order\<close>
  "patterns =
     [(greeting, Anchored greeting_texts),
      (typo, Unanchored typo_texts),
      (small_talk, Anchored small_talk_texts),
      (clarification, Anchored clarification_texts),
      (meta, Anchored meta_texts)]"

fun first_match :: "(query_type \<times> regex) list \<Rightarrow> string \<Rightarrow> QueryClassificationResult option" where
  \<comment> \<open>the \<open>for\<close> loop over the entries: the first pattern that matches returns\<close>
  "first_match [] s = None"
| "first_match ((ty, pattern) # rest) s =
     (if test pattern s
      then Some \<lparr>type = ty, confidence = lit 0.9,
                  skip_validation = js_includes [greeting, typo, small_talk, meta] ty\<rparr>
      else first_match rest s)"

definition classifyQuery :: "string \<Rightarrow> QueryClassificationResult" where
  "classifyQuery query =
     (let trimmedQuery = toLowerCase (trim query) in
      case first_match patterns trimmedQuery of
        Some r \<Rightarrow> r
      | None \<Rightarrow>
          if length trimmedQuery \<le> 10
          then \<lparr>type = greeting, confidence = lit 0.7, skip_validation = True\<rparr>
          else if js_includes trimmedQuery (CHR ''?'') \<or> startsWith trimmedQuery ''how''
                  \<or> startsWith trimmedQuery ''what'' \<or> startsWith trimmedQuery ''when''
                  \<or> startsWith trimmedQuery ''where'' \<or> startsWith trimmedQuery ''why''
                  \<or> startsWith trimmedQuery ''who'' \<or> startsWith trimmedQuery ''which''
          then \<lparr>type = question, confidence = lit 0.8, skip_validation = False\<rparr>
          else \<lparr>type = question, confidence = lit 0.6, skip_validation = False\<rparr>)"

section \<open>Results of the checks\<close>

record Source =
  content :: string
  title :: "string option"

record AccuracyResult =
  verified :: bool
  verification_rate :: number
  reason :: "string option"

record ContextResult =
  source_relevance :: number
  source_usage_rate :: number
  valid :: bool

record HallucinationResult =
  detected :: bool
  risk :: number
  hallucinated_parts :: "string list option"

section \<open>The platform and the two judges\<close>

text \<open>
  What the checkers call and the repository does not define: \<open>JSON.parse\<close> and the two
  client libraries. They are parameters of the model. A thrown value is an \<open>Error\<close> with its
  message, or some other value.
\<close>

datatype js_exn = Error string | NonError

datatype json = JNull | JBool bool | JNum number | JStr string | JArr "json list"
  | JObj "(string \<times> json) list"
  \<comment> \<open>an object lists its own properties, each name once\<close>

datatype check = accuracy_check | hallucination_check

datatype provider = openai | claude

record request =
  \<comment> \<open>one call of a judge: the prompt is the fixed template of the check, filled with the
      sources and the response\<close>
  req_provider :: provider
  req_check :: check
  req_model :: string
  req_sources :: string
  req_response :: string

datatype content_block = text_block string | other_block

record env =
  JSON_parse :: "string \<Rightarrow> json option"
    \<comment> \<open>\<open>None\<close>: a SyntaxError is thrown\<close>
  openai_create :: "request \<Rightarrow> js_exn + string option list"
    \<comment> \<open>\<open>chat.completions.create\<close>: the \<open>message.content\<close> of each choice (\<open>None\<close> is null)\<close>
  claude_create :: "request \<Rightarrow> js_exn + content_block list"
    \<comment> \<open>\<open>messages.create\<close>: the content blocks of the message\<close>

definition TypeError :: "string \<Rightarrow> string \<Rightarrow> js_exn" where
  \<comment> \<open>reading the property \<open>name\<close> of \<open>undefined\<close> or \<open>null\<close>, with the message of V8\<close>
  "TypeError what name =
     Error (''Cannot read properties of '' @ what @ '' (reading '' @ [CHR 0x27] @ name
              @ [CHR 0x27] @ '')'')"

definition message :: "js_exn \<Rightarrow> string" where
  \<comment> \<open>\<open>error instanceof Error ? error.message : 'unknown error'\<close>\<close>
  "message e = (case e of Error m \<Rightarrow> m | NonError \<Rightarrow> ''unknown error'')"

definition provider_name :: "provider \<Rightarrow> string" where
  "provider_name p = (case p of openai \<Rightarrow> ''openai'' | claude \<Rightarrow> ''claude'')"

subsection \<open>Reading the judge's reply\<close>

function remove_fence :: "string \<Rightarrow> string \<Rightarrow> string" where
  \<comment> \<open>\<open>replace(/MARKER\s*/g, '')\<close>: every occurrence of the marker, with the white space
      after it, is removed, from left to right\<close>
  "remove_fence marker [] = []"
| "remove_fence marker (c # cs) =
     (if marker \<noteq> [] \<and> startsWith (c # cs) marker
      then remove_fence marker (dropWhile isSpace (drop (length marker) (c # cs)))
      else c # remove_fence marker cs)"
  by pat_completeness auto
termination
proof (relation "measure (\<lambda>(marker, s). length s)")
  fix marker :: string and c :: char and cs :: string
  assume "marker \<noteq> [] \<and> startsWith (c # cs) marker"
  then have "0 < length marker" by simp
  then have "length (drop (length marker) (c # cs)) < length (c # cs)" by simp
  moreover have "length (dropWhile isSpace (drop (length marker) (c # cs)))
      \<le> length (drop (length marker) (c # cs))"
    by (rule length_dropWhile_le)
  ultimately show "((marker, dropWhile isSpace (drop (length marker) (c # cs))), (marker, c # cs))
      \<in> measure (\<lambda>(marker, s). length s)"
    by simp
qed simp_all

definition strip_fences :: "string \<Rightarrow> string" where
  "strip_fences raw = trim (remove_fence ''```'' (remove_fence ''```json'' raw))"

definition parseLLMResponse :: "env \<Rightarrow> string \<Rightarrow> json" where
  "parseLLMResponse e raw =
     (case JSON_parse e raw of
        Some j \<Rightarrow> j
      | None \<Rightarrow>
          (case JSON_parse e (strip_fences raw) of
             Some j \<Rightarrow> j
           | None \<Rightarrow> JObj []))"

definition property :: "json \<Rightarrow> string \<Rightarrow> json option" where
  \<comment> \<open>\<open>result.name\<close> for a value that is not null: \<open>None\<close> is \<open>undefined\<close>. The names read
      here are no properties of a string, a number, a boolean or an array.\<close>
  "property j name = (case j of JObj kvs \<Rightarrow> map_of kvs name | _ \<Rightarrow> None)"

definition truthy :: "json \<Rightarrow> bool" where
  "truthy j = (case j of JNull \<Rightarrow> False | JBool b \<Rightarrow> b | JNum n \<Rightarrow> \<not> falsy n
                | JStr s \<Rightarrow> s \<noteq> [] | JArr _ \<Rightarrow> True | JObj _ \<Rightarrow> True)"

text \<open>
  The results are typed as their interfaces declare them (boolean, number, text, list of
  texts), and the model covers the replies whose fields, when present, have these types or
  are null. On any other reply a flag is read by its truthiness, and a rate, a reason or a
  list of parts of another type is read as the default, which is not what the source
  returns.
\<close>

definition or_false :: "json option \<Rightarrow> bool" where
  \<comment> \<open>\<open>x || false\<close>\<close>
  "or_false x = (case x of None \<Rightarrow> False | Some j \<Rightarrow> truthy j)"

definition or_zero :: "json option \<Rightarrow> number" where
  \<comment> \<open>\<open>x || 0\<close>\<close>
  "or_zero x = (case x of Some (JNum n) \<Rightarrow> (if falsy n then Num 0 else n) | _ \<Rightarrow> Num 0)"

definition or_undefined :: "json option \<Rightarrow> string option" where
  \<comment> \<open>\<open>result.reason\<close>, as it is\<close>
  "or_undefined x = (case x of Some (JStr s) \<Rightarrow> Some s | _ \<Rightarrow> None)"

definition or_empty :: "json option \<Rightarrow> string list" where
  \<comment> \<open>\<open>x || []\<close>\<close>
  "or_empty x = (case x of Some (JArr js) \<Rightarrow> concat (map (\<lambda>j. case j of JStr s \<Rightarrow> [s] | _ \<Rightarrow> []) js)
                 | _ \<Rightarrow> [])"

definition or_default :: "string option \<Rightarrow> string \<Rightarrow> string" where
  \<comment> \<open>\<open>s || d\<close> for an optional text: the empty text is falsy\<close>
  "or_default s d = (case s of None \<Rightarrow> d | Some t \<Rightarrow> if t = [] then d else t)"

definition first_content :: "string option list \<Rightarrow> js_exn + string" where
  \<comment> \<open>\<open>completion.choices[0].message.content || '{}'\<close>\<close>
  "first_content choices =
     (case choices of [] \<Rightarrow> Inl (TypeError ''undefined'' ''message'') | c # _ \<Rightarrow> Inr (or_default c ''{}''))"

definition first_text :: "content_block list \<Rightarrow> js_exn + string" where
  \<comment> \<open>\<open>message.content[0].type === 'text' ? message.content[0].text : '{}'\<close>\<close>
  "first_text blocks =
     (case blocks of [] \<Rightarrow> Inl (TypeError ''undefined'' ''type'')
      | text_block t # _ \<Rightarrow> Inr t | other_block # _ \<Rightarrow> Inr ''{}'')"

section \<open>AccuracyChecker and HallucinationDetector\<close>

record clients =
  \<comment> \<open>the fields \<open>openai\<close> and \<open>claude\<close> of a checker: set when the key is given\<close>
  has_openai :: bool
  has_claude :: bool

definition new_clients :: "string option \<Rightarrow> string option \<Rightarrow> clients" where
  \<comment> \<open>the constructor of both checkers\<close>
  "new_clients openaiApiKey claudeApiKey =
     \<lparr>has_openai = (or_default openaiApiKey [] \<noteq> []),
      has_claude = (or_default claudeApiKey [] \<noteq> [])\<rparr>"

definition accuracy_of :: "json \<Rightarrow> js_exn + AccuracyResult" where
  "accuracy_of result =
     (if result = JNull then Inl (TypeError ''null'' ''verified'')
      else Inr \<lparr>verified = or_false (property result ''verified''),
                verification_rate = or_zero (property result ''verification_rate''),
                reason = or_undefined (property result ''reason'')\<rparr>)"

definition checkAccuracyWithOpenAI ::
  "env \<Rightarrow> string \<Rightarrow> string \<Rightarrow> string option \<Rightarrow> (js_exn + AccuracyResult) \<times> request list" where
  "checkAccuracyWithOpenAI e response sourceContent model =
     (let req = \<lparr>req_provider = openai, req_check = accuracy_check,
                  req_model = or_default model ''gpt-4o'',
                  req_sources = sourceContent, req_response = response\<rparr> in
      (case openai_create e req of
         Inl err \<Rightarrow> Inl err
       | Inr completion \<Rightarrow>
           (case first_content completion of
              Inl err \<Rightarrow> Inl err
            | Inr rawResponse \<Rightarrow> accuracy_of (parseLLMResponse e rawResponse)),
       [req]))"

definition checkAccuracyWithClaude ::
  "env \<Rightarrow> string \<Rightarrow> string \<Rightarrow> string option \<Rightarrow> (js_exn + AccuracyResult) \<times> request list" where
  "checkAccuracyWithClaude e response sourceContent model =
     (let req = \<lparr>req_provider = claude, req_check = accuracy_check,
                  req_model = or_default model ''claude-sonnet-4-5-20250929'',
                  req_sources = sourceContent, req_response = response\<rparr> in
      (case claude_create e req of
         Inl err \<Rightarrow> Inl err
       | Inr msg \<Rightarrow>
           (case first_text msg of
              Inl err \<Rightarrow> Inl err
            | Inr rawResponse \<Rightarrow> accuracy_of (parseLLMResponse e rawResponse)),
       [req]))"

definition checkAccuracy ::
  "env \<Rightarrow> clients \<Rightarrow> string \<Rightarrow> Source list \<Rightarrow> provider \<Rightarrow> string option
     \<Rightarrow> AccuracyResult \<times> request list" where
  "checkAccuracy e cl response sources llmProvider model =
     (if length sources = 0
      then (\<lparr>verified = False, verification_rate = Num 0, reason = Some ''no_sources_provided''\<rparr>, [])
      else
        let sourceContent = join [CHR 0x0A, CHR 0x0A] (map content sources);
            (outcome, calls) =
              (if llmProvider = openai \<and> has_openai cl
               then checkAccuracyWithOpenAI e response sourceContent model
               else if llmProvider = claude \<and> has_claude cl
               then checkAccuracyWithClaude e response sourceContent model
               else (Inl (Error (''LLM provider '' @ provider_name llmProvider @ '' not available'')), []))
        in (case outcome of
              Inr r \<Rightarrow> r
            | Inl err \<Rightarrow>
                \<lparr>verified = False, verification_rate = Num 0,
                 reason = Some (''accuracy_check_failed: '' @ message err)\<rparr>,
            calls))"

definition hallucination_of :: "json \<Rightarrow> js_exn + HallucinationResult" where
  "hallucination_of result =
     (if result = JNull then Inl (TypeError ''null'' ''detected'')
      else Inr \<lparr>detected = or_false (property result ''detected''),
                risk = or_zero (property result ''risk''),
                hallucinated_parts = Some (or_empty (property result ''hallucinated_parts''))\<rparr>)"

definition detectHallucinationWithOpenAI ::
  "env \<Rightarrow> string \<Rightarrow> string \<Rightarrow> string option \<Rightarrow> (js_exn + HallucinationResult) \<times> request list" where
  "detectHallucinationWithOpenAI e response sourceContent model =
     (let req = \<lparr>req_provider = openai, req_check = hallucination_check,
                  req_model = or_default model ''gpt-4o'',
                  req_sources = sourceContent, req_response = response\<rparr> in
      (case openai_create e req of
         Inl err \<Rightarrow> Inl err
       | Inr completion \<Rightarrow>
           (case first_content completion of
              Inl err \<Rightarrow> Inl err
            | Inr rawResponse \<Rightarrow> hallucination_of (parseLLMResponse e rawResponse)),
       [req]))"

definition detectHallucinationWithClaude ::
  "env \<Rightarrow> string \<Rightarrow> string \<Rightarrow> string option \<Rightarrow> (js_exn + HallucinationResult) \<times> request list" where
  "detectHallucinationWithClaude e response sourceContent model =
     (let req = \<lparr>req_provider = claude, req_check = hallucination_check,
                  req_model = or_default model ''claude-sonnet-4-5-20250929'',
                  req_sources = sourceContent, req_response = response\<rparr> in
      (case claude_create e req of
         Inl err \<Rightarrow> Inl err
       | Inr msg \<Rightarrow>
           (case first_text msg of
              Inl err \<Rightarrow> Inl err
            | Inr rawResponse \<Rightarrow> hallucination_of (parseLLMResponse e rawResponse)),
       [req]))"

definition detectHallucination ::
  "env \<Rightarrow> clients \<Rightarrow> string \<Rightarrow> Source list \<Rightarrow> provider \<Rightarrow> string option
     \<Rightarrow> HallucinationResult \<times> request list" where
  "detectHallucination e cl response sources llmProvider model =
     (if length sources = 0
      then (\<lparr>detected = True, risk = lit 0.8, hallucinated_parts = Some [''entire_response'']\<rparr>, [])
      else
        let sourceContent = join [CHR 0x0A, CHR 0x0A] (map content sources);
            (outcome, calls) =
              (if llmProvider = openai \<and> has_openai cl
               then detectHallucinationWithOpenAI e response sourceContent model
               else if llmProvider = claude \<and> has_claude cl
               then detectHallucinationWithClaude e response sourceContent model
               else (Inl (Error (''LLM provider '' @ provider_name llmProvider @ '' not available'')), []))
        in (case outcome of
              Inr r \<Rightarrow> r
            | Inl err \<Rightarrow>
                \<lparr>detected = True, risk = lit 0.9,
                 hallucinated_parts = Some [''hallucination_check_failed'']\<rparr>,
            calls))"

section \<open>Context relevance\<close>

fun split_from :: "bool \<Rightarrow> string \<Rightarrow> string \<Rightarrow> string list" where
  \<comment> \<open>\<open>split(/\s+/)\<close>: the pieces between the maximal runs of white space; the flag says
      that the scan is inside such a run, and the second argument is the piece read so
      far, reversed\<close>
  "split_from in_run piece [] = [rev piece]"
| "split_from in_run piece (c # cs) =
     (if isSpace c
      then (if in_run then split_from True piece cs else rev piece # split_from True [] cs)
      else split_from False (c # piece) cs)"

definition split_spaces :: "string \<Rightarrow> string list" where
  "split_spaces s = split_from False [] s"

definition strip_punctuation :: "string \<Rightarrow> string" where
  \<comment> \<open>\<open>replace(/[^\w\s]/g, '')\<close>\<close>
  "strip_punctuation s = filter (\<lambda>c. isWordChar c \<or> isSpace c) s"

fun count_included :: "string list \<Rightarrow> string list \<Rightarrow> nat \<Rightarrow> nat" where
  \<comment> \<open>the loop that counts the words of the first list that the second list includes\<close>
  "count_included [] hay n = n"
| "count_included (word # ws) hay n =
     count_included ws hay (if js_includes hay word then n + 1 else n)"

definition calculateContextRelevance :: "string \<Rightarrow> string \<Rightarrow> Source list \<Rightarrow> ContextResult" where
  "calculateContextRelevance query response sources =
     (if length sources = 0
      then \<lparr>source_relevance = Num 0, source_usage_rate = Num 0, valid = False\<rparr>
      else
        let cleanResponse = strip_punctuation (toLowerCase response);
            sourceContent =
              join '' '' (map (\<lambda>s. strip_punctuation (toLowerCase (content s))) sources);
            responseWords = filter (\<lambda>word. length word > 3) (split_spaces cleanResponse);
            sourceWords = filter (\<lambda>word. length word > 3) (split_spaces sourceContent);
            wordsInSource = count_included responseWords sourceWords 0;
            sourceRelevance =
              (if length responseWords > 0
               then js_div (of_count wordsInSource) (of_count (length responseWords))
               else lit 0.5);
            cleanQuery = strip_punctuation (toLowerCase query);
            queryWords = filter (\<lambda>word. length word > 2) (split_spaces cleanQuery);
            queryWordsInResponse = count_included queryWords responseWords 0;
            sourceUsageRate =
              (if length queryWords > 0
               then js_div (of_count queryWordsInResponse) (of_count (length queryWords))
               else lit 0.5)
        in \<lparr>source_relevance = Math_min sourceRelevance (Num 1),
            source_usage_rate = sourceUsageRate,
            valid = js_gt sourceRelevance (lit 0.3)\<rparr>)"

section \<open>ConfidenceScorer\<close>

datatype level = high | medium | low

record Breakdown =
  accuracy_score :: number
  context_score :: number
  hallucination_score :: number
  source_quality :: number

record ConfidenceResult =
  confidence_score :: number
  level :: level
  breakdown :: Breakdown

definition quality_of :: "Source \<Rightarrow> number" where
  \<comment> \<open>the body of the loop of \<open>calculateSourceQuality\<close>\<close>
  "quality_of source =
     (let quality = lit 0.5;
          quality = (if length (content source) > 100 then js_add quality (lit 0.2) else quality);
          quality = (if length (content source) > 500 then js_add quality (lit 0.2) else quality);
          quality = (if or_default (title source) [] \<noteq> [] \<and> length (or_default (title source) []) > 0
                     then js_add quality (lit 0.1) else quality)
      in Math_min quality (Num 1))"

fun total_quality :: "Source list \<Rightarrow> number \<Rightarrow> number" where
  "total_quality [] totalQuality = totalQuality"
| "total_quality (source # rest) totalQuality =
     total_quality rest (js_add totalQuality (quality_of source))"

definition calculateSourceQuality :: "Source list \<Rightarrow> number" where
  "calculateSourceQuality sources =
     (if length sources = 0 then Num 0
      else js_div (total_quality sources (Num 0)) (of_count (length sources)))"

definition calculateConfidence ::
  "AccuracyResult \<Rightarrow> ContextResult \<Rightarrow> HallucinationResult \<Rightarrow> Source list \<Rightarrow> ConfidenceResult" where
  "calculateConfidence accuracyResult contextResult hallucinationResult sources =
     (let accuracyScore = verification_rate accuracyResult;
          contextScore = source_relevance contextResult;
          hallucinationScore = js_sub (Num 1) (risk hallucinationResult);
          sourceQualityScore = calculateSourceQuality sources;
          confidenceScore =
            js_add
              (js_add
                (js_add (js_mul accuracyScore (lit 0.35)) (js_mul contextScore (lit 0.25)))
                (js_mul hallucinationScore (lit 0.30)))
              (js_mul sourceQualityScore (lit 0.10))
      in \<lparr>confidence_score = hundredths confidenceScore,
          level = (if js_ge confidenceScore (lit 0.8) then high
                   else if js_ge confidenceScore (lit 0.5) then medium else low),
          breakdown =
            \<lparr>accuracy_score = hundredths accuracyScore,
             context_score = hundredths contextScore,
             hallucination_score = hundredths hallucinationScore,
             source_quality = hundredths sourceQualityScore\<rparr>\<rparr>)"

section \<open>AIValidator\<close>

record AIValidatorConfig =
  \<comment> \<open>\<open>None\<close>: the option is not supplied\<close>
  openaiApiKey :: "string option"
  claudeApiKey :: "string option"
  llmProvider :: provider
  openaiModel :: "string option"
  claudeModel :: "string option"
  confidenceThreshold :: "number option"
  enableQueryClassification :: "bool option"
  enableAccuracyCheck :: "bool option"
  enableHallucinationDetection :: "bool option"

record ValidationInput =
  query :: string
  response :: string
  sources :: "Source list"

record ValidationResult =
  confidence :: number
  valid :: bool
  accuracy :: AccuracyResult
  "context" :: ContextResult
  hallucination :: HallucinationResult
  warnings :: "string list"
  query_type :: "query_type option"
  skip_validation :: "bool option"

record AIValidator =
  config :: AIValidatorConfig
  accuracyChecker :: clients
  hallucinationDetector :: clients

definition default_to :: "'a \<Rightarrow> 'a option \<Rightarrow> 'a option" where
  \<comment> \<open>a default of the constructor, which a supplied option replaces\<close>
  "default_to d x = (case x of None \<Rightarrow> Some d | Some v \<Rightarrow> Some v)"

definition with_defaults :: "AIValidatorConfig \<Rightarrow> AIValidatorConfig" where
  "with_defaults c =
     c\<lparr>confidenceThreshold := default_to (lit 0.7) (confidenceThreshold c),
       enableQueryClassification := default_to True (enableQueryClassification c),
       enableAccuracyCheck := default_to True (enableAccuracyCheck c),
       enableHallucinationDetection := default_to True (enableHallucinationDetection c),
       openaiModel := default_to ''gpt-4o'' (openaiModel c),
       claudeModel := default_to ''claude-sonnet-4-5-20250929'' (claudeModel c)\<rparr>"

definition validateConfig :: "AIValidatorConfig \<Rightarrow> js_exn + unit" where
  "validateConfig c =
     (if or_default (openaiApiKey c) [] = [] \<and> or_default (claudeApiKey c) [] = []
      then Inl (Error ''At least one API key (OpenAI or Claude) must be provided'')
      else if llmProvider c = openai \<and> or_default (openaiApiKey c) [] = []
      then Inl (Error ''OpenAI API key is required when using OpenAI provider'')
      else if llmProvider c = claude \<and> or_default (claudeApiKey c) [] = []
      then Inl (Error ''Claude API key is required when using Claude provider'')
      else Inr ())"

definition new_AIValidator :: "AIValidatorConfig \<Rightarrow> js_exn + AIValidator" where
  \<comment> \<open>the constructor\<close>
  "new_AIValidator c =
     (let cfg = with_defaults c in
      case validateConfig cfg of
        Inl err \<Rightarrow> Inl err
      | Inr _ \<Rightarrow>
          Inr \<lparr>config = cfg,
               accuracyChecker = new_clients (openaiApiKey cfg) (claudeApiKey cfg),
               hallucinationDetector = new_clients (openaiApiKey cfg) (claudeApiKey cfg)\<rparr>)"

definition getModel :: "AIValidatorConfig \<Rightarrow> string" where
  "getModel c =
     (if llmProvider c = openai then or_default (openaiModel c) ''gpt-4o''
      else or_default (claudeModel c) ''claude-sonnet-4-5-20250929'')"

definition enabled :: "bool option \<Rightarrow> bool" where
  \<comment> \<open>the truthiness of an optional flag\<close>
  "enabled x = (case x of None \<Rightarrow> False | Some b \<Rightarrow> b)"

definition threshold_or_default :: "number option \<Rightarrow> number" where
  \<comment> \<open>\<open>this.config.confidenceThreshold || 0.7\<close>: \<open>undefined\<close>, \<open>0\<close> and NaN are falsy\<close>
  "threshold_or_default x =
     (case x of None \<Rightarrow> lit 0.7 | Some t \<Rightarrow> if falsy t then lit 0.7 else t)"

definition generateWarnings ::
  "AccuracyResult \<Rightarrow> ContextResult \<Rightarrow> HallucinationResult \<Rightarrow> Source list \<Rightarrow> string list" where
  "generateWarnings accuracyResult contextResult hallucinationResult srcs =
     (if length srcs = 0 then [''No sources provided - high hallucination risk''] else [])
     @ (if js_lt (verification_rate accuracyResult) (lit 0.5) then [''Low accuracy verification rate''] else [])
     @ (if js_lt (source_relevance contextResult) (lit 0.3) then [''Low context relevance''] else [])
     @ (if js_gt (risk hallucinationResult) (lit 0.5) then [''High hallucination risk detected''] else [])
     @ (if detected hallucinationResult then [''Hallucination detected in response''] else [])"

text \<open>
  \<open>validate\<close> returns its result and the calls of the judges it made, in the order in which
  the checks start them. No step of the pipeline throws on typed input (each checker turns
  its own exceptions into a result), so the handler around the whole body is not reached.
\<close>

definition validate :: "AIValidator \<Rightarrow> env \<Rightarrow> ValidationInput \<Rightarrow> ValidationResult \<times> request list" where
  "validate v e input =
     (let classification = classifyQuery (query input) in
      if enabled (enableQueryClassification (config v))
         \<and> QueryClassificationResult.skip_validation classification
      then (\<lparr>confidence = Num 1, valid = True,
              accuracy = \<lparr>verified = True, verification_rate = Num 1, reason = None\<rparr>,
              context = \<lparr>source_relevance = Num 1, source_usage_rate = Num 1,
                         ContextResult.valid = True\<rparr>,
              hallucination = \<lparr>detected = False, risk = Num 0, hallucinated_parts = None\<rparr>,
              warnings = [],
              query_type = Some (type classification),
              skip_validation = Some True\<rparr>, [])
      else
        let (accuracyResult, calls1) =
              (if enabled (enableAccuracyCheck (config v))
               then checkAccuracy e (accuracyChecker v) (response input) (sources input)
                      (llmProvider (config v)) (Some (getModel (config v)))
               else (\<lparr>verified = True, verification_rate = Num 1, reason = None\<rparr>, []));
            contextResult =
              calculateContextRelevance (query input) (response input) (sources input);
            (hallucinationResult, calls2) =
              (if enabled (enableHallucinationDetection (config v))
               then detectHallucination e (hallucinationDetector v) (response input) (sources input)
                      (llmProvider (config v)) (Some (getModel (config v)))
               else (\<lparr>detected = False, risk = Num 0, hallucinated_parts = None\<rparr>, []));
            confidenceResult =
              calculateConfidence accuracyResult contextResult hallucinationResult (sources input);
            warnings = generateWarnings accuracyResult contextResult hallucinationResult (sources input);
            valid = js_ge (confidence_score confidenceResult)
                      (threshold_or_default (confidenceThreshold (config v)))
        in (\<lparr>confidence = confidence_score confidenceResult, valid = valid,
              accuracy = accuracyResult, context = contextResult,
              hallucination = hallucinationResult, warnings = warnings,
              query_type = None, skip_validation = None\<rparr>, calls1 @ calls2))"

section \<open>The documented behaviour, for comparison\<close>

definition confidenceScore ::
  "AccuracyResult \<Rightarrow> ContextResult \<Rightarrow> HallucinationResult \<Rightarrow> Source list \<Rightarrow> number" where
  \<comment> \<open>the weighted sum that \<open>calculateConfidence\<close> holds in \<open>confidenceScore\<close> before it
      rounds to hundredths\<close>
  "confidenceScore a c h srcs =
     js_add
       (js_add
         (js_add (js_mul (verification_rate a) (lit 0.35)) (js_mul (source_relevance c) (lit 0.25)))
         (js_mul (js_sub (Num 1) (risk h)) (lit 0.30)))
       (js_mul (calculateSourceQuality srcs) (lit 0.10))"

definition in_range :: "number \<Rightarrow> real \<Rightarrow> bool" where
  \<comment> \<open>a number from 0 to \<open>b\<close>\<close>
  "in_range a b = (js_le (Num 0) a \<and> js_le a (Num b))"

definition in_unit :: "number \<Rightarrow> bool" where
  \<comment> \<open>a number of the interval [0,1]\<close>
  "in_unit a = in_range a 1"

subsection \<open>Lexical overlap\<close>

definition spec_lower :: "char \<Rightarrow> char" where
  \<comment> \<open>the lower case of a code unit of Latin-1: the capital letters A to Z and, from
      \<open>0xC0\<close> to \<open>0xDE\<close> without the sign \<open>0xD7\<close>, the accented capitals move up by 32\<close>
  "spec_lower c =
     (let n = of_char c :: nat
      in if (65 \<le> n \<and> n \<le> 90) \<or> (192 \<le> n \<and> n \<le> 222 \<and> n \<noteq> 215)
         then char_of (n + 32) else c)"


function words :: "string \<Rightarrow> string list" where
  \<comment> \<open>the tokens of a text: its maximal runs of characters that are no white space\<close>
  "words s =
     (case dropWhile isSpace s of
        [] \<Rightarrow> []
      | c # cs \<Rightarrow>
          takeWhile (\<lambda>x. \<not> isSpace x) (c # cs) # words (dropWhile (\<lambda>x. \<not> isSpace x) cs))"
  by pat_completeness auto
termination
proof (relation "measure length")
  fix s :: string and c :: char and cs :: string
  assume "dropWhile isSpace s = c # cs"
  then have "length (c # cs) \<le> length s"
    by (metis length_dropWhile_le)
  moreover have "length (dropWhile (\<lambda>x. \<not> isSpace x) cs) \<le> length cs"
    by (rule length_dropWhile_le)
  ultimately show "(dropWhile (\<lambda>x. \<not> isSpace x) cs, s) \<in> measure length"
    by simp
qed simp

declare words.simps [simp del]




subsection \<open>The precedence of the classifier\<close>

definition interrogatives :: "string list" where
  "interrogatives = [''how'', ''what'', ''when'', ''where'', ''why'', ''who'', ''which'']"

definition starts_with_word :: "string \<Rightarrow> string \<Rightarrow> bool" where
  \<comment> \<open>the text starts with the word, and the word ends there\<close>
  "starts_with_word t w =
     (startsWith t w \<and> (case drop (length w) t of [] \<Rightarrow> True | c # _ \<Rightarrow> \<not> isWordChar c))"

definition classify_chain :: "(string \<Rightarrow> string \<Rightarrow> bool) \<Rightarrow> string \<Rightarrow> QueryClassificationResult" where
  \<comment> \<open>the documented precedence as one chain of cases, on the trimmed and lowercased
      text \<open>t\<close>; the first argument is the test for an interrogative at the start\<close>
  "classify_chain starts t =
     (if alternation_at greeting_texts t
      then \<lparr>type = greeting, QueryClassificationResult.confidence = lit 0.9,
            QueryClassificationResult.skip_validation = True\<rparr>
      else if search typo_texts t
      then \<lparr>type = typo, QueryClassificationResult.confidence = lit 0.9,
            QueryClassificationResult.skip_validation = True\<rparr>
      else if alternation_at small_talk_texts t
      then \<lparr>type = small_talk, QueryClassificationResult.confidence = lit 0.9,
            QueryClassificationResult.skip_validation = True\<rparr>
      else if alternation_at clarification_texts t
      then \<lparr>type = clarification, QueryClassificationResult.confidence = lit 0.9,
            QueryClassificationResult.skip_validation = False\<rparr>
      else if alternation_at meta_texts t
      then \<lparr>type = meta, QueryClassificationResult.confidence = lit 0.9,
            QueryClassificationResult.skip_validation = True\<rparr>
      else if length t \<le> 10
      then \<lparr>type = greeting, QueryClassificationResult.confidence = lit 0.7,
            QueryClassificationResult.skip_validation = True\<rparr>
      else if CHR ''?'' \<in> set t \<or> list_ex (starts t) interrogatives
      then \<lparr>type = question, QueryClassificationResult.confidence = lit 0.8,
            QueryClassificationResult.skip_validation = False\<rparr>
      else \<lparr>type = question, QueryClassificationResult.confidence = lit 0.6,
            QueryClassificationResult.skip_validation = False\<rparr>)"

definition trimmed :: "string \<Rightarrow> bool" where
  \<comment> \<open>a text without white space at its ends\<close>
  "trimmed s = (case s of [] \<Rightarrow> True | c # _ \<Rightarrow> \<not> isSpace c \<and> \<not> isSpace (last s))"

subsection \<open>Skipped queries\<close>

fun contains :: "string \<Rightarrow> string \<Rightarrow> bool" where
  \<comment> \<open>the second text occurs somewhere in the first, as it is\<close>
  "contains [] m = startsWith [] m"
| "contains (c # cs) m = (startsWith (c # cs) m \<or> contains cs m)"

definition contains_misspelling :: "string \<Rightarrow> bool" where
  \<comment> \<open>the query contains one of the listed misspellings\<close>
  "contains_misspelling q = list_ex (contains q) typo_texts"

definition skipped_result :: "query_type \<Rightarrow> ValidationResult" where
  \<comment> \<open>the result of a validation that the classification lets skip\<close>
  "skipped_result ty =
     \<lparr>confidence = Num 1, valid = True,
      accuracy = \<lparr>verified = True, verification_rate = Num 1, reason = None\<rparr>,
      context = \<lparr>source_relevance = Num 1, source_usage_rate = Num 1, ContextResult.valid = True\<rparr>,
      hallucination = \<lparr>detected = False, risk = Num 0, hallucinated_parts = None\<rparr>,
      warnings = [],
      query_type = Some ty,
      skip_validation = Some True\<rparr>"

subsection \<open>The calls of the judges\<close>



section \<open>Test doubles and sample inputs\<close>

definition sample_parse :: "string \<Rightarrow> json option" where
  \<comment> \<open>\<open>JSON.parse\<close> on the texts of the examples: the empty object, \<open>null\<close>, and texts
      that are no JSON\<close>
  "sample_parse s =
     (if s = ''{}'' then Some (JObj []) else if s = ''null'' then Some JNull else None)"

definition throwing_env :: env where
  \<comment> \<open>both judges throw\<close>
  "throwing_env =
     \<lparr>JSON_parse = sample_parse,
      openai_create = (\<lambda>req. Inl (Error ''Request timed out.'')),
      claude_create = (\<lambda>req. Inl (Error ''Request timed out.''))\<rparr>"



definition paris :: Source where
  "paris = \<lparr>content = ''Paris is the capital of France'', title = None\<rparr>"

definition openai_config :: AIValidatorConfig where
  \<comment> \<open>a configuration that supplies the provider and its key only\<close>
  "openai_config =
     \<lparr>openaiApiKey = Some ''sk-test'', claudeApiKey = None, llmProvider = openai,
      openaiModel = None, claudeModel = None, confidenceThreshold = None,
      enableQueryClassification = None, enableAccuracyCheck = None,
      enableHallucinationDetection = None\<rparr>"

definition openai_validator :: AIValidator where
  \<comment> \<open>what the constructor builds from \<open>openai_config\<close>\<close>
  "openai_validator =
     \<lparr>config = with_defaults openai_config,
      accuracyChecker = \<lparr>has_openai = True, has_claude = False\<rparr>,
      hallucinationDetector = \<lparr>has_openai = True, has_claude = False\<rparr>\<rparr>"

definition zero_threshold_validator :: AIValidator where
  \<comment> \<open>what the constructor builds from \<open>openai_config\<close> with \<open>confidenceThreshold: 0\<close>\<close>
  "zero_threshold_validator =
     openai_validator\<lparr>config := (config openai_validator)\<lparr>confidenceThreshold := Some (Num 0)\<rparr>\<rparr>"

definition unclassified_validator :: AIValidator where
  \<comment> \<open>what the constructor builds from \<open>openai_config\<close> with
      \<open>enableQueryClassification: false\<close>\<close>
  "unclassified_validator =
     openai_validator\<lparr>config :=
       (config openai_validator)\<lparr>enableQueryClassification := Some False\<rparr>\<rparr>"

definition boiling_point :: ValidationInput where
  "boiling_point =
     \<lparr>query = ''What is the boiling point of water?'', response = ''100 degrees Celsius'',
      sources = []\<rparr>"




section \<open>Rounding to a double\<close>

lemma exponent_bounds:
  assumes "0 < x"
  shows "2 powi exponent x \<le> x \<and> x < 2 powi (exponent x + 1)"
proof (cases "1 \<le> x")
  case True
  define n where "n = \<lfloor>x\<rfloor>"
  from True have n: "0 < n" by (simp add: n_def)
  from bitlen_bounds [OF n]
  have lo: "2 ^ nat (bitlen n - 1) \<le> n" and hi: "n < 2 ^ nat (bitlen n)" by simp_all
  from n have b: "1 \<le> bitlen n" by (auto simp add: bitlen_alt_def)
  have e: "exponent x = bitlen n - 1" using True by (simp add: exponent_def n_def)
  have "(2::real) ^ nat (bitlen n - 1) \<le> real_of_int n"
    using lo of_int_le_iff [of "2 ^ nat (bitlen n - 1)" n, where ?'a = real] by simp
  also have "\<dots> \<le> x" by (simp add: n_def)
  finally have 1: "2 powi exponent x \<le> x" using b by (simp add: e power_int_nonneg_exp)
  from hi have "n + 1 \<le> 2 ^ nat (bitlen n)" by simp
  then have "real_of_int (n + 1) \<le> 2 ^ nat (bitlen n)"
    using of_int_le_iff [of "n + 1" "2 ^ nat (bitlen n)", where ?'a = real] by simp
  moreover have "x < real_of_int (n + 1)" by (simp add: n_def)
  ultimately have "x < (2::real) ^ nat (bitlen n)" by linarith
  then have 2: "x < 2 powi (exponent x + 1)" using b by (simp add: e power_int_nonneg_exp)
  from 1 2 show ?thesis by simp
next
  case False
  with assms have x1: "x < 1" by simp
  define y where "y = 1 / x"
  define m where "m = \<lceil>y\<rceil>"
  from assms x1 have y1: "1 < y" by (simp add: y_def)
  then have m2: "2 \<le> m" unfolding m_def by linarith
  define k where "k = bitlen (m - 1)"
  from m2 have pos: "0 < m - 1" by simp
  from bitlen_bounds [OF pos]
  have lo: "2 ^ nat (k - 1) \<le> m - 1" and hi: "m - 1 < 2 ^ nat k" by (simp_all add: k_def)
  from pos have k1: "1 \<le> k" by (auto simp add: k_def bitlen_alt_def)
  have e: "exponent x = - k" using False by (simp add: exponent_def k_def m_def y_def)
  from hi have "m \<le> 2 ^ nat k" by simp
  then have "real_of_int m \<le> 2 ^ nat k"
    using of_int_le_iff [of m "2 ^ nat k", where ?'a = real] by simp
  moreover have "y \<le> real_of_int m" by (simp add: m_def)
  ultimately have yk: "y \<le> 2 ^ nat k" by linarith
  have "(2::real) ^ nat (k - 1) \<le> real_of_int (m - 1)"
    using lo of_int_le_iff [of "2 ^ nat (k - 1)" "m - 1", where ?'a = real] by simp
  moreover have "real_of_int (m - 1) < y" unfolding m_def by linarith
  ultimately have ky: "2 ^ nat (k - 1) < y" by linarith
  have x: "x = 1 / y" using assms by (simp add: y_def)
  have p1: "2 powi (- k) = 1 / (2::real) ^ nat k"
    using k1 by (simp add: power_int_minus_divide power_int_nonneg_exp)
  have p2: "2 powi (- k + 1) = 1 / (2::real) ^ nat (k - 1)"
  proof -
    have "- k + 1 = - (k - 1)" by simp
    then show ?thesis
      using k1 by (simp only: power_int_minus_divide) (simp add: power_int_nonneg_exp)
  qed
  have a1: "1 / 2 ^ nat k \<le> 1 / y" using yk y1 by (simp add: frac_le)
  have a2: "1 / y < 1 / 2 ^ nat (k - 1)" using ky y1 by (simp add: frac_less2)
  have 1: "2 powi exponent x \<le> x"
    unfolding e p1 using a1 x by simp
  have 2: "x < 2 powi (exponent x + 1)"
    unfolding e p2 using a2 x by simp
  from 1 2 show ?thesis by simp
qed

lemma exponent_mono:
  assumes "0 < a" and "a \<le> b"
  shows "exponent a \<le> exponent b"
proof (rule ccontr)
  assume "\<not> exponent a \<le> exponent b"
  then have "exponent b + 1 \<le> exponent a" by simp
  then have "(2::real) powi (exponent b + 1) \<le> 2 powi exponent a"
    by (intro power_int_increasing) simp_all
  moreover from exponent_bounds [of a] assms have "2 powi exponent a \<le> a" by simp
  moreover from exponent_bounds [of b] assms have "b < 2 powi (exponent b + 1)" by simp
  ultimately show False using assms by linarith
qed

lemma round_half_even_int [simp]: "round_half_even (of_int n) = n"
  by (simp add: round_half_even_def)

lemma round_half_even_bounds:
  "\<lfloor>z\<rfloor> \<le> round_half_even z \<and> round_half_even z \<le> \<lfloor>z\<rfloor> + 1"
  by (simp add: round_half_even_def Let_def)

lemma round_half_even_mono:
  assumes "z \<le> w"
  shows "round_half_even z \<le> round_half_even w"
proof (cases "\<lfloor>z\<rfloor> = \<lfloor>w\<rfloor>")
  case True
  with assms show ?thesis by (auto simp add: round_half_even_def Let_def)
next
  case False
  with assms have "\<lfloor>z\<rfloor> < \<lfloor>w\<rfloor>" using floor_mono [of z w] by linarith
  with round_half_even_bounds [of z] round_half_even_bounds [of w] show ?thesis by linarith
qed

lemma round_pos_eq:
  "round_pos a = of_int (round_half_even (a / 2 powi max (exponent a - 52) (- 1074)))
     * 2 powi max (exponent a - 52) (- 1074)"
  by (simp add: round_pos_def Let_def)

lemma grid_le:
  \<comment> \<open>rounding on the grid of step \<open>2 powi q\<close> does not pass a point of the grid\<close>
  assumes "a \<le> of_int N * 2 powi q"
  shows "of_int (round_half_even (a / 2 powi q)) * 2 powi q \<le> of_int N * (2::real) powi q"
proof -
  have p: "(0::real) < 2 powi q" by simp
  from assms p have "a / 2 powi q \<le> of_int N" by (simp add: pos_divide_le_eq)
  from round_half_even_mono [OF this] have "round_half_even (a / 2 powi q) \<le> N" by simp
  then have "real_of_int (round_half_even (a / 2 powi q)) \<le> real_of_int N" by linarith
  with p show ?thesis by (simp add: mult_right_mono)
qed

lemma grid_ge:
  assumes "of_int N * 2 powi q \<le> a"
  shows "of_int N * (2::real) powi q \<le> of_int (round_half_even (a / 2 powi q)) * 2 powi q"
proof -
  have p: "(0::real) < 2 powi q" by simp
  from assms p have "of_int N \<le> a / 2 powi q" by (simp add: pos_le_divide_eq)
  from round_half_even_mono [OF this] have "N \<le> round_half_even (a / 2 powi q)" by simp
  then have "real_of_int N \<le> real_of_int (round_half_even (a / 2 powi q))" by linarith
  with p show ?thesis by (simp add: mult_right_mono)
qed

lemma powi_as_grid_point:
  assumes "q \<le> e"
  shows "(2::real) powi e = of_int (2 ^ nat (e - q)) * 2 powi q"
proof -
  have "(2::real) powi e = 2 powi ((e - q) + q)" by simp
  also have "\<dots> = 2 powi (e - q) * 2 powi q" by (rule power_int_add) simp
  also have "2 powi (e - q) = (2::real) ^ nat (e - q)"
    using assms by (simp add: power_int_nonneg_exp)
  finally show ?thesis by simp
qed

lemma round_pos_nonneg:
  assumes "0 < a"
  shows "0 \<le> round_pos a"
proof -
  from assms have "(0::real) \<le> a / 2 powi max (exponent a - 52) (- 1074)" by simp
  from round_half_even_mono [OF this]
  have "0 \<le> round_half_even (a / 2 powi max (exponent a - 52) (- 1074))"
    using round_half_even_int [of 0] by simp
  then show ?thesis by (simp add: round_pos_eq)
qed

lemma round_pos_mono:
  assumes "0 < a" and "a \<le> b"
  shows "round_pos a \<le> round_pos b"
proof -
  let ?qa = "max (exponent a - 52) (- 1074)"
  let ?qb = "max (exponent b - 52) (- 1074)"
  from assms have b: "0 < b" by simp
  from exponent_mono [OF assms] have q: "?qa \<le> ?qb" by simp
  show ?thesis
  proof (cases "?qa = ?qb")
    case True
    have p: "(0::real) < 2 powi ?qb" by simp
    from assms p have "a / 2 powi ?qb \<le> b / 2 powi ?qb" by (simp add: divide_right_mono)
    from round_half_even_mono [OF this]
    have "real_of_int (round_half_even (a / 2 powi ?qb))
        \<le> real_of_int (round_half_even (b / 2 powi ?qb))"
      by linarith
    with p have "of_int (round_half_even (a / 2 powi ?qb)) * 2 powi ?qb
        \<le> of_int (round_half_even (b / 2 powi ?qb)) * (2::real) powi ?qb"
      by (simp add: mult_right_mono)
    then show ?thesis unfolding round_pos_eq True by simp
  next
    case False
    from q False have lt: "?qa < ?qb" by (rule le_neq_trans)
    then have qb: "?qb = exponent b - 52" by linarith
    from lt have ea: "exponent a + 1 \<le> exponent b" by linarith
    let ?B = "(2::real) powi exponent b"
    from exponent_bounds [OF b] have Bb: "?B \<le> b" by simp
    from exponent_bounds [OF assms(1)] have "a < 2 powi (exponent a + 1)" by simp
    also have "\<dots> \<le> ?B" using ea by (intro power_int_increasing) simp_all
    finally have aB: "a \<le> ?B" by simp
    have qaB: "?qa \<le> exponent b" using lt qb by linarith
    have qbB: "?qb \<le> exponent b" using qb by linarith
    from grid_le [of a "2 ^ nat (exponent b - ?qa)" ?qa] aB powi_as_grid_point [OF qaB]
    have 1: "round_pos a \<le> ?B" unfolding round_pos_eq by simp
    from grid_ge [of "2 ^ nat (exponent b - ?qb)" ?qb b] Bb powi_as_grid_point [OF qbB]
    have 2: "?B \<le> round_pos b" unfolding round_pos_eq by simp
    from 1 2 show ?thesis by linarith
  qed
qed

lemma rnd_mono:
  assumes "x \<le> y"
  shows "rnd x \<le> rnd y"
proof -
  consider "0 < x" | "x = 0" | "x < 0" "0 \<le> y" | "x < 0" "y < 0" by linarith
  then show ?thesis
  proof cases
    case 1
    with assms show ?thesis using round_pos_mono [of x y] by (simp add: rnd_def)
  next
    case 2
    with assms show ?thesis using round_pos_nonneg [of y] by (auto simp add: rnd_def)
  next
    case 3
    then show ?thesis using round_pos_nonneg [of "- x"] round_pos_nonneg [of y]
      by (auto simp add: rnd_def)
  next
    case 4
    with assms show ?thesis using round_pos_mono [of "- y" "- x"] by (simp add: rnd_def)
  qed
qed

lemma rnd_zero [simp]: "rnd 0 = 0"
  by (simp add: rnd_def)

lemma rnd_nonneg: "0 \<le> x \<Longrightarrow> 0 \<le> rnd x"
  using rnd_mono [of 0 x] by simp

lemma rnd_nonpos: "x \<le> 0 \<Longrightarrow> rnd x \<le> 0"
  using rnd_mono [of x 0] by simp

lemma rnd_nat:
  assumes "n \<le> 2 ^ 53"
  shows "rnd (real n) = real n"
proof (cases "n = 0")
  case True
  then show ?thesis by simp
next
  case False
  then have pos: "0 < real n" by simp
  let ?e = "exponent (real n)"
  from exponent_bounds [OF pos]
  have lo: "2 powi ?e \<le> real n" and hi: "real n < 2 powi (?e + 1)"
    by simp_all
  from assms have top: "real n \<le> 2 ^ 53"
    by (metis of_nat_le_iff of_nat_numeral of_nat_power)
  have e0: "0 \<le> ?e"
  proof (rule ccontr)
    assume "\<not> 0 \<le> ?e"
    then have "?e + 1 \<le> 0" by simp
    then have "(2::real) powi (?e + 1) \<le> 2 powi 0" by (intro power_int_increasing) simp_all
    with hi have "real n < 1" by simp
    with False show False by simp
  qed
  have e53: "?e \<le> 53"
  proof (rule ccontr)
    assume "\<not> ?e \<le> 53"
    then have "54 \<le> ?e" by simp
    then have "(2::real) powi 54 \<le> 2 powi ?e" by (intro power_int_increasing) simp_all
    with lo have "(2::real) ^ 54 \<le> real n" by simp
    with top show False by simp
  qed
  let ?q = "max (?e - 52) (- 1074)"
  have q: "?q = ?e - 52" using e0 by simp
  show ?thesis
  proof (cases "?e \<le> 52")
    case True
    have "(2::real) powi (?e - 52) = 1 / 2 ^ nat (52 - ?e)"
    proof -
      have "?e - 52 = - (52 - ?e)" by simp
      then show ?thesis
        using True by (simp only: power_int_minus_divide) (simp add: power_int_nonneg_exp)
    qed
    then have g: "real n / 2 powi ?q = real_of_int (int n * 2 ^ nat (52 - ?e))"
      and p: "(2::real) powi ?q * 2 ^ nat (52 - ?e) = 1"
      by (simp_all add: q)
    have "round_pos (real n) = real_of_int (int n * 2 ^ nat (52 - ?e)) * 2 powi ?q"
      unfolding round_pos_eq g round_half_even_int ..
    also have "\<dots> = real n * ((2::real) powi ?q * 2 ^ nat (52 - ?e))" by simp
    finally have "round_pos (real n) = real n" unfolding p by simp
    with pos show ?thesis by (simp add: rnd_def)
  next
    case False
    with e53 have e: "?e = 53" by simp
    from lo e have "(2::real) ^ 53 \<le> real n" by simp
    with top have n: "real n = 2 ^ 53" by simp
    have "?q = 1" using e by simp
    then have "round_pos (real n) = of_int (round_half_even (2 ^ 53 / 2)) * 2"
      unfolding round_pos_eq n using n by simp
    also have "(2::real) ^ 53 / 2 = of_int (2 ^ 52)" by simp
    finally have "round_pos (real n) = 2 ^ 53" by (simp only: round_half_even_int) simp
    with pos n show ?thesis by (simp add: rnd_def)
  qed
qed

lemmas double_defs =
  lit_def to_double_def rnd_def round_pos_def exponent_def round_half_even_def compute_bitlen
  Let_def power_int_minus_divide

lemma rnd_stagnates: "rnd (2 ^ 53 + 1) = 2 ^ 53"
  by (simp add: double_defs)

lemma rnd_one [simp]: "rnd 1 = 1"
  by (simp add: double_defs)

lemma rnd_hundred [simp]: "rnd 100 = 100"
  by (simp add: double_defs)

lemma to_double_mono:
  assumes "x \<le> y"
  shows "js_le (to_double x) (to_double y)"
proof -
  from rnd_mono [OF assms] have m: "rnd x \<le> rnd y" .
  have px: "0 < x \<Longrightarrow> 0 \<le> rnd x" and nx: "\<not> 0 < x \<Longrightarrow> rnd x \<le> 0"
    using rnd_nonneg [of x] rnd_nonpos [of x] by simp_all
  have py: "0 < y \<Longrightarrow> 0 \<le> rnd y" and ny: "\<not> 0 < y \<Longrightarrow> rnd y \<le> 0"
    using rnd_nonneg [of y] rnd_nonpos [of y] by simp_all
  have big: "(0::real) < 2 powi 1024" by simp
  show ?thesis
    unfolding to_double_def js_le_def
    using m px nx py ny big assms by (auto simp add: abs_if split: if_splits)
qed

lemma to_double_bounded:
  assumes "0 \<le> x" and "x \<le> b" and "rnd b < 2 powi 1024"
  shows "to_double x = Num (rnd x) \<and> 0 \<le> rnd x \<and> rnd x \<le> rnd b"
proof -
  from rnd_nonneg [OF assms(1)] rnd_mono [OF assms(2)] assms(3)
  show ?thesis by (simp add: to_double_def)
qed

lemma js_le_Num [simp]: "js_le (Num x) (Num y) = (x \<le> y)"
  by (auto simp add: js_le_def)

lemma js_le_refl: "a \<noteq> NaN \<Longrightarrow> js_le a a"
  by (simp add: js_le_def)

lemma js_le_trans: "js_le a b \<Longrightarrow> js_le b c \<Longrightarrow> js_le a c"
  by (cases a; cases b; cases c) (auto simp add: js_le_def)

lemma js_le_total: "a \<noteq> NaN \<Longrightarrow> b \<noteq> NaN \<Longrightarrow> js_le a b \<or> js_le b a"
  by (cases a; cases b) (auto simp add: js_le_def)

lemma js_le_not_NaN: "js_le a b \<Longrightarrow> a \<noteq> NaN \<and> b \<noteq> NaN"
  by (cases a; cases b) (auto simp add: js_le_def)

lemma js_mul_100_mono:
  assumes "js_le a b"
  shows "js_le (js_mul a (Num 100)) (js_mul b (Num 100))"
proof (cases a)
  case (Num x)
  show ?thesis
  proof (cases b)
    case (Num y)
    with \<open>a = Num x\<close> assms have "x * 100 \<le> y * 100" by simp
    from to_double_mono [OF this] show ?thesis using Num \<open>a = Num x\<close> by simp
  next
    case Infinity
    have "to_double (x * 100) \<noteq> NaN" by (simp add: to_double_def)
    then show ?thesis using Infinity \<open>a = Num x\<close>
      by (cases "to_double (x * 100)") (simp_all add: js_le_def signum_def)
  qed (use assms \<open>a = Num x\<close> in \<open>simp_all add: js_le_def\<close>)
next
  case Infinity
  with assms show ?thesis by (cases b) (simp_all add: js_le_def signum_def)
next
  case MinusInfinity
  show ?thesis
  proof (cases b)
    case (Num y)
    have "to_double (y * 100) \<noteq> NaN" by (simp add: to_double_def)
    then show ?thesis using Num MinusInfinity
      by (cases "to_double (y * 100)") (simp_all add: js_le_def signum_def)
  qed (use assms MinusInfinity in \<open>simp_all add: js_le_def signum_def\<close>)
next
  case NaN
  with assms show ?thesis by (simp add: js_le_def)
qed

lemma Math_round_mono:
  assumes "js_le a b"
  shows "js_le (Math_round a) (Math_round b)"
proof (cases a)
  case (Num x)
  show ?thesis
  proof (cases b)
    case (Num y)
    with \<open>a = Num x\<close> assms have "x + 1 / 2 \<le> y + 1 / 2" by simp
    from floor_mono [OF this] show ?thesis
      using Num \<open>a = Num x\<close> by (simp add: Math_round_def)
  qed (use assms \<open>a = Num x\<close> in \<open>simp_all add: js_le_def Math_round_def\<close>)
qed (use assms in \<open>cases b; simp add: js_le_def Math_round_def\<close>)+

lemma js_div_100_mono:
  assumes "js_le a b"
  shows "js_le (js_div a (Num 100)) (js_div b (Num 100))"
proof (cases a)
  case (Num x)
  show ?thesis
  proof (cases b)
    case (Num y)
    with \<open>a = Num x\<close> assms have "x / 100 \<le> y / 100" by simp
    from to_double_mono [OF this] show ?thesis using Num \<open>a = Num x\<close> by simp
  next
    case Infinity
    have "to_double (x / 100) \<noteq> NaN" by (simp add: to_double_def)
    then show ?thesis using Infinity \<open>a = Num x\<close>
      by (cases "to_double (x / 100)") (simp_all add: js_le_def signum_def)
  qed (use assms \<open>a = Num x\<close> in \<open>simp_all add: js_le_def\<close>)
next
  case Infinity
  with assms show ?thesis by (cases b) (simp_all add: js_le_def signum_def)
next
  case MinusInfinity
  show ?thesis
  proof (cases b)
    case (Num y)
    have "to_double (y / 100) \<noteq> NaN" by (simp add: to_double_def)
    then show ?thesis using Num MinusInfinity
      by (cases "to_double (y / 100)") (simp_all add: js_le_def signum_def)
  qed (use assms MinusInfinity in \<open>simp_all add: js_le_def signum_def\<close>)
next
  case NaN
  with assms show ?thesis by (simp add: js_le_def)
qed

lemma hundredths_mono:
  assumes "js_le a b"
  shows "js_le (hundredths a) (hundredths b)"
  unfolding hundredths_def
  by (intro js_div_100_mono Math_round_mono js_mul_100_mono assms)

lemma hundredths_NaN [simp]: "hundredths NaN = NaN"
  by (simp add: hundredths_def Math_round_def)

lemma hundredths_zero [simp]: "hundredths (Num 0) = Num 0"
  by (simp add: hundredths_def Math_round_def double_defs)

lemma hundredths_one [simp]: "hundredths (Num 1) = Num 1"
  by (simp add: hundredths_def Math_round_def double_defs)

lemma hundredths_half: "hundredths (lit 0.5) = lit 0.5"
  by (simp add: hundredths_def Math_round_def double_defs)

lemma hundredths_eight_tenths: "hundredths (lit 0.8) = lit 0.8"
  by (simp add: hundredths_def Math_round_def double_defs)

lemma lit_not_NaN [simp]: "lit x \<noteq> NaN"
  by (simp add: lit_def to_double_def)

section \<open>Lemmas on the constructor and the classifier\<close>

lemmas string_defs =
  trim_def toLowerCase_def lower_char_def canonicalize_def upper_chars_def lower_chars_def
  isSpace_def isWordChar_def js_includes_def

lemmas classifier_defs =
  classifyQuery_def patterns_def alternation_at_def greeting_texts_def typo_texts_def
  small_talk_texts_def clarification_texts_def meta_texts_def

lemma new_openai_validator: "new_AIValidator openai_config = Inr openai_validator"
  by (simp add: new_AIValidator_def openai_config_def openai_validator_def with_defaults_def
      validateConfig_def or_default_def default_to_def new_clients_def)

lemma classification_enabled_by_default:
  "enabled (enableQueryClassification (config openai_validator))"
  by (simp add: openai_validator_def with_defaults_def openai_config_def default_to_def
      enabled_def)

lemma classify_hi:
  "classifyQuery ''hi'' =
     \<lparr>type = greeting, QueryClassificationResult.confidence = lit 0.9,
      QueryClassificationResult.skip_validation = True\<rparr>"
  by (simp add: classifier_defs string_defs)

section \<open>Empty sources\<close>

text \<open>
  C1. With an empty list of sources, \<open>checkAccuracy\<close> returns unverified, rate 0 and the
  reason \<open>no_sources_provided\<close>; \<open>detectHallucination\<close> returns detected, risk 0.8 and the part
  \<open>entire_response\<close>; the context relevance is 0, 0 and not valid. Whatever the judges and
  the clients are, the two checkers make no call of a judge; the context estimate has no
  access to one.
\<close>

theorem empty_sources_short_circuit:
  "checkAccuracy e cl r [] p m =
     (\<lparr>verified = False, verification_rate = Num 0, reason = Some ''no_sources_provided''\<rparr>, [])
   \<and> detectHallucination e cl r [] p m =
     (\<lparr>detected = True, risk = lit 0.8, hallucinated_parts = Some [''entire_response'']\<rparr>, [])
   \<and> calculateContextRelevance q r [] =
     \<lparr>source_relevance = Num 0, source_usage_rate = Num 0, ContextResult.valid = False\<rparr>"
  by (simp add: checkAccuracy_def detectHallucination_def calculateContextRelevance_def)

section \<open>Skipped validation\<close>

text \<open>
  C2. When query classification is enabled and the query classifies with
  \<open>skip_validation\<close>, \<open>validate\<close> returns confidence 1, valid, the accuracy verified at
  rate 1, the context at 1, 1 and valid, no hallucination at risk 0, no warning, the type of
  the query and the skip flag, and it makes no call of a judge.
\<close>

theorem skip_returns_immediately:
  assumes "enabled (enableQueryClassification (config v))"
    and "QueryClassificationResult.skip_validation (classifyQuery (query input))"
  shows "validate v e input =
     (\<lparr>confidence = Num 1, valid = True,
       accuracy = \<lparr>verified = True, verification_rate = Num 1, reason = None\<rparr>,
       context = \<lparr>source_relevance = Num 1, source_usage_rate = Num 1,
                  ContextResult.valid = True\<rparr>,
       hallucination = \<lparr>detected = False, risk = Num 0, hallucinated_parts = None\<rparr>,
       warnings = [],
       query_type = Some (type (classifyQuery (query input))),
       skip_validation = Some True\<rparr>, [])"
  using assms by (simp add: validate_def Let_def)

theorem skip_returns_immediately_witness:
  "enabled (enableQueryClassification (config openai_validator))
   \<and> QueryClassificationResult.skip_validation (classifyQuery ''hi'')
   \<and> validate openai_validator throwing_env
        \<lparr>query = ''hi'', response = ''Hello there'', sources = [paris]\<rparr> =
     (\<lparr>confidence = Num 1, valid = True,
       accuracy = \<lparr>verified = True, verification_rate = Num 1, reason = None\<rparr>,
       context = \<lparr>source_relevance = Num 1, source_usage_rate = Num 1,
                  ContextResult.valid = True\<rparr>,
       hallucination = \<lparr>detected = False, risk = Num 0, hallucinated_parts = None\<rparr>,
       warnings = [],
       query_type = Some greeting,
       skip_validation = Some True\<rparr>, [])"
proof -
  let ?input = "\<lparr>query = ''hi'', response = ''Hello there'', sources = [paris]\<rparr>"
  have on: "enabled (enableQueryClassification (config openai_validator))"
    by (rule classification_enabled_by_default)
  have skip: "QueryClassificationResult.skip_validation (classifyQuery (query ?input))"
    by (simp add: classify_hi)
  from skip_returns_immediately [OF on skip, of throwing_env] on skip
  show ?thesis by (simp add: classify_hi)
qed

section \<open>The confidence score\<close>

lemma in_range_iff: "in_range a b \<longleftrightarrow> (\<exists>x. a = Num x \<and> 0 \<le> x \<and> x \<le> b)"
  by (cases a) (auto simp add: in_range_def js_le_def)

lemma in_unit_iff: "in_unit a \<longleftrightarrow> (\<exists>x. a = Num x \<and> 0 \<le> x \<and> x \<le> 1)"
  by (simp add: in_unit_def in_range_iff)

lemma hundredths_in_unit:
  assumes "in_unit a"
  shows "in_unit (hundredths a)"
  using assms hundredths_mono [of "Num 0" a] hundredths_mono [of a "Num 1"]
  by (simp add: in_unit_def in_range_def)

lemma below_overflow:
  fixes x :: real
  assumes "x \<le> 2 ^ 53"
  shows "x < 2 powi 1024"
proof -
  have "(2::real) ^ 53 < 2 ^ 1024" by (rule power_strict_increasing) simp_all
  with assms show ?thesis by simp
qed

lemma lit_unit:
  assumes "0 \<le> w" and "w \<le> 1"
  shows "lit w = Num (rnd w) \<and> 0 \<le> rnd w \<and> rnd w \<le> 1"
  using to_double_bounded [of w 1] assms by (simp add: lit_def below_overflow)

lemma js_mul_weight:
  assumes "0 \<le> r" and "r \<le> 1" and "0 \<le> w" and "w \<le> 1"
  shows "js_mul (Num r) (lit w) = Num (rnd (r * rnd w))
    \<and> 0 \<le> rnd (r * rnd w) \<and> rnd (r * rnd w) \<le> rnd (rnd w)"
proof -
  from lit_unit [OF assms(3,4)]
  have l: "lit w = Num (rnd w)" and l0: "0 \<le> rnd w" and l1: "rnd w \<le> 1" by simp_all
  have 0: "0 \<le> r * rnd w" using assms l0 by simp
  have 1: "r * rnd w \<le> rnd w" using assms l0 by (simp add: mult_left_le_one_le)
  from rnd_mono [OF l1] have "rnd (rnd w) < 2 powi 1024" by (simp add: below_overflow)
  from to_double_bounded [OF 0 1 this] show ?thesis by (simp add: l)
qed

lemma js_add_bounded:
  assumes "0 \<le> x" and "x \<le> bx" and "0 \<le> y" and "y \<le> by" and "rnd (bx + by) \<le> 2 ^ 53"
  shows "js_add (Num x) (Num y) = Num (rnd (x + y))
    \<and> 0 \<le> rnd (x + y) \<and> rnd (x + y) \<le> rnd (bx + by)"
  using to_double_bounded [of "x + y" "bx + by"] assms by (simp add: below_overflow)

lemma weights_below_one:
  "rnd (rnd (rnd 0.35) + rnd (rnd 0.25)) \<le> 1"
  "rnd (rnd (rnd (rnd 0.35) + rnd (rnd 0.25)) + rnd (rnd 0.30)) \<le> 1"
  "rnd (rnd (rnd (rnd (rnd 0.35) + rnd (rnd 0.25)) + rnd (rnd 0.30)) + rnd (rnd 0.10)) \<le> 1"
  by (simp_all add: double_defs)

lemma weighted_sum_in_unit:
  assumes "in_unit r1" and "in_unit r2" and "in_unit r3" and "in_unit r4"
  shows "in_unit
    (js_add
      (js_add
        (js_add (js_mul r1 (lit 0.35)) (js_mul r2 (lit 0.25)))
        (js_mul r3 (lit 0.30)))
      (js_mul r4 (lit 0.10)))"
proof -
  from assms obtain x1 x2 x3 x4
    where r: "r1 = Num x1" "r2 = Num x2" "r3 = Num x3" "r4 = Num x4"
      and x: "0 \<le> x1" "x1 \<le> 1" "0 \<le> x2" "x2 \<le> 1" "0 \<le> x3" "x3 \<le> 1" "0 \<le> x4" "x4 \<le> 1"
    unfolding in_unit_iff by blast
  let ?t1 = "rnd (x1 * rnd 0.35)" and ?t2 = "rnd (x2 * rnd 0.25)"
  let ?t3 = "rnd (x3 * rnd 0.30)" and ?t4 = "rnd (x4 * rnd 0.10)"
  let ?b1 = "rnd (rnd 0.35)" and ?b2 = "rnd (rnd 0.25)"
  let ?b3 = "rnd (rnd 0.30)" and ?b4 = "rnd (rnd 0.10)"
  from js_mul_weight [OF x(1,2), where w = "0.35"]
  have m1: "js_mul (Num x1) (lit 0.35) = Num ?t1" and t1: "0 \<le> ?t1" "?t1 \<le> ?b1" by simp_all
  from js_mul_weight [OF x(3,4), where w = "0.25"]
  have m2: "js_mul (Num x2) (lit 0.25) = Num ?t2" and t2: "0 \<le> ?t2" "?t2 \<le> ?b2" by simp_all
  from js_mul_weight [OF x(5,6), where w = "0.30"]
  have m3: "js_mul (Num x3) (lit 0.30) = Num ?t3" and t3: "0 \<le> ?t3" "?t3 \<le> ?b3" by simp_all
  from js_mul_weight [OF x(7,8), where w = "0.10"]
  have m4: "js_mul (Num x4) (lit 0.10) = Num ?t4" and t4: "0 \<le> ?t4" "?t4 \<le> ?b4" by simp_all
  let ?B1 = "rnd (?b1 + ?b2)"
  let ?B2 = "rnd (?B1 + ?b3)"
  let ?B3 = "rnd (?B2 + ?b4)"
  have B1: "?B1 \<le> 2 ^ 53" using weights_below_one(1) by simp
  have B2: "?B2 \<le> 2 ^ 53" using weights_below_one(2) by simp
  have B3: "?B3 \<le> 2 ^ 53" using weights_below_one(3) by simp
  let ?s1 = "rnd (?t1 + ?t2)"
  let ?s2 = "rnd (?s1 + ?t3)"
  let ?s3 = "rnd (?s2 + ?t4)"
  from js_add_bounded [OF t1 t2 B1]
  have a1: "js_add (Num ?t1) (Num ?t2) = Num ?s1" and s1: "0 \<le> ?s1" "?s1 \<le> ?B1" by simp_all
  from js_add_bounded [OF s1 t3 B2]
  have a2: "js_add (Num ?s1) (Num ?t3) = Num ?s2" and s2: "0 \<le> ?s2" "?s2 \<le> ?B2" by simp_all
  from js_add_bounded [OF s2 t4 B3]
  have a3: "js_add (Num ?s2) (Num ?t4) = Num ?s3" and s3: "0 \<le> ?s3" "?s3 \<le> ?B3" by simp_all
  from s3 weights_below_one(3) have "?s3 \<le> 1" by linarith
  with s3(1) show ?thesis
    unfolding r m1 m2 m3 m4 a1 a2 a3 in_unit_iff by simp
qed

lemma one_minus_in_unit:
  assumes "in_unit a"
  shows "in_unit (js_sub (Num 1) a)"
proof -
  from assms obtain x where a: "a = Num x" and x: "0 \<le> x" "x \<le> 1"
    unfolding in_unit_iff by blast
  from x have "0 \<le> 1 + - x" and "1 + - x \<le> 1" by simp_all
  from to_double_bounded [OF this] show ?thesis
    by (simp add: a js_sub_def js_neg_def in_unit_iff below_overflow)
qed

lemma Math_min_one_in_unit:
  assumes "in_range a b"
  shows "in_unit (Math_min a (Num 1))"
  using assms by (auto simp add: Math_min_def in_unit_iff in_range_iff)

lemma in_range_mono: "in_range a b \<Longrightarrow> b \<le> c \<Longrightarrow> in_range a c"
  by (auto simp add: in_range_iff)

lemma lit_in_range:
  assumes "0 \<le> w" and "w \<le> 1"
  shows "in_range (lit w) (real 1)"
  using lit_unit [OF assms] by (simp add: in_range_iff)

lemma js_add_in_range:
  assumes "in_range a (real m)" and "in_range b (real n)" and "m + n \<le> 2 ^ 53"
  shows "in_range (js_add a b) (real (m + n))"
proof -
  from assms obtain x y where a: "a = Num x" and x: "0 \<le> x" "x \<le> real m"
    and b: "b = Num y" and y: "0 \<le> y" "y \<le> real n"
    unfolding in_range_iff by blast
  from x y have 0: "0 \<le> x + y" and 1: "x + y \<le> real (m + n)" by simp_all
  have "rnd (real (m + n)) < 2 powi 1024"
    unfolding rnd_nat [OF assms(3)] using assms(3)
    by (intro below_overflow) (metis of_nat_le_iff of_nat_numeral of_nat_power)
  from to_double_bounded [OF 0 1 this] show ?thesis
    unfolding rnd_nat [OF assms(3)] a b in_range_iff by simp
qed

lemma quality_of_in_unit: "in_unit (quality_of s)"
proof -
  define q0 where "q0 = lit 0.5"
  define q1 where "q1 = (if length (content s) > 100 then js_add q0 (lit 0.2) else q0)"
  define q2 where "q2 = (if length (content s) > 500 then js_add q1 (lit 0.2) else q1)"
  define q3 where
    "q3 = (if or_default (title s) [] \<noteq> [] \<and> length (or_default (title s) []) > 0
           then js_add q2 (lit 0.1) else q2)"
  have r0: "in_range q0 (real 1)" unfolding q0_def by (rule lit_in_range) simp_all
  have l2: "in_range (lit 0.2) (real 1)" by (rule lit_in_range) simp_all
  have l1: "in_range (lit 0.1) (real 1)" by (rule lit_in_range) simp_all
  have r1: "in_range q1 (real 2)"
  proof (cases "length (content s) > 100")
    case True
    from js_add_in_range [OF r0 l2] show ?thesis by (simp add: q1_def True)
  next
    case False
    with in_range_mono [OF r0, of "real 2"] show ?thesis by (simp add: q1_def)
  qed
  have r2: "in_range q2 (real 3)"
  proof (cases "length (content s) > 500")
    case True
    from js_add_in_range [OF r1 l2] show ?thesis by (simp add: q2_def True)
  next
    case False
    with in_range_mono [OF r1, of "real 3"] show ?thesis by (simp add: q2_def)
  qed
  have r3: "in_range q3 (real 4)"
  proof (cases "or_default (title s) [] \<noteq> [] \<and> length (or_default (title s) []) > 0")
    case True
    from js_add_in_range [OF r2 l1] show ?thesis unfolding q3_def using True by simp
  next
    case False
    with in_range_mono [OF r2, of "real 4"] show ?thesis unfolding q3_def by simp
  qed
  have "quality_of s = Math_min q3 (Num 1)"
    unfolding quality_of_def Let_def q3_def q2_def q1_def q0_def ..
  with Math_min_one_in_unit [OF r3] show ?thesis by simp
qed

lemma total_quality_bounded:
  assumes "0 \<le> t" and "t \<le> real k" and "t \<le> 2 ^ 53"
  shows "\<exists>T. total_quality srcs (Num t) = Num T \<and> 0 \<le> T \<and> T \<le> real (k + length srcs)"
  using assms
proof (induction srcs arbitrary: t k)
  case Nil
  then show ?case by simp
next
  case (Cons s srcs)
  from quality_of_in_unit [of s] obtain q where q: "quality_of s = Num q" "0 \<le> q" "q \<le> 1"
    unfolding in_unit_iff by blast
  have top: "rnd (2 ^ 53 + 1) \<le> 2 ^ 53" unfolding rnd_stagnates by (rule order_refl)
  from js_add_bounded [OF Cons.prems(1,3) q(2,3) top]
  have a: "js_add (Num t) (Num q) = Num (rnd (t + q))"
    and 0: "0 \<le> rnd (t + q)" and le: "rnd (t + q) \<le> rnd (2 ^ 53 + 1)"
    by blast+
  from le have 1: "rnd (t + q) \<le> 2 ^ 53" unfolding rnd_stagnates .
  have 2: "rnd (t + q) \<le> real (Suc k)"
  proof (cases "Suc k \<le> 2 ^ 53")
    case True
    from Cons.prems(2) q(3) have "t + q \<le> real (Suc k)" by simp
    from rnd_mono [OF this] rnd_nat [OF True] show ?thesis by simp
  next
    case False
    then have "(2::nat) ^ 53 \<le> Suc k" by simp
    then have "real ((2::nat) ^ 53) \<le> real (Suc k)" by (rule of_nat_mono)
    with 1 show ?thesis by simp
  qed
  from Cons.IH [OF 0 2 1] show ?case unfolding total_quality.simps q(1) a by simp
qed

lemma calculateSourceQuality_in_unit: "in_unit (calculateSourceQuality srcs)"
proof (cases srcs)
  case Nil
  then show ?thesis by (simp add: calculateSourceQuality_def in_unit_iff)
next
  case (Cons s rest)
  from total_quality_bounded [of 0 0 srcs]
  obtain T where T: "total_quality srcs (Num 0) = Num T" "0 \<le> T" "T \<le> real (length srcs)"
    by auto
  from Cons have n: "0 < real (length srcs)" by simp
  from T n have "0 \<le> T / real (length srcs)" and "T / real (length srcs) \<le> 1" by simp_all
  from to_double_bounded [OF this] n T(1) Cons show ?thesis
    by (simp add: calculateSourceQuality_def of_count_def in_unit_iff below_overflow)
qed

lemma confidence_score_rounds:
  "confidence_score (calculateConfidence a c h srcs) = hundredths (confidenceScore a c h srcs)"
  unfolding calculateConfidence_def confidenceScore_def Let_def
  by (simp only: ConfidenceResult.select_convs)

lemma level_of_score:
  "level (calculateConfidence a c h srcs) =
     (if js_ge (confidenceScore a c h srcs) (lit 0.8) then high
      else if js_ge (confidenceScore a c h srcs) (lit 0.5) then medium else low)"
  unfolding calculateConfidence_def confidenceScore_def Let_def
  by (simp only: ConfidenceResult.select_convs)

lemma breakdown_of_score:
  "breakdown (calculateConfidence a c h srcs) =
     \<lparr>accuracy_score = hundredths (verification_rate a),
      context_score = hundredths (source_relevance c),
      hallucination_score = hundredths (js_sub (Num 1) (risk h)),
      source_quality = hundredths (calculateSourceQuality srcs)\<rparr>"
  unfolding calculateConfidence_def Let_def
  by (simp only: ConfidenceResult.select_convs)

lemma not_ge_cases:
  assumes "\<not> js_ge a b" and "b \<noteq> NaN"
  shows "a = NaN \<or> js_lt a b"
  using assms by (cases a; cases b) (auto simp add: js_ge_def js_le_def)

lemma js_lt_le: "js_lt a b \<Longrightarrow> js_le a b"
  by (simp add: js_le_def)

lemma js_lt_not_ge: "js_lt a b \<Longrightarrow> \<not> js_ge a b"
  by (cases a; cases b) (auto simp add: js_ge_def js_le_def)

lemma js_ge_not_NaN: "js_ge a b \<Longrightarrow> a \<noteq> NaN"
  by (cases a; cases b) (auto simp add: js_ge_def js_le_def)

text \<open>
  The level is taken from the weighted sum before it is rounded. With verification rate 1,
  relevance 0.39, risk 0 and one short source without a title the sum of the doubles is
  0.7975000000000001: the level is medium and the returned score is 0.8. So "high iff the
  returned score is at least 0.80" fails.
\<close>

theorem level_counterexample:
  "level (calculateConfidence
      \<lparr>verified = True, verification_rate = Num 1, reason = None\<rparr>
      \<lparr>source_relevance = lit 0.39, source_usage_rate = Num 1, ContextResult.valid = True\<rparr>
      \<lparr>detected = False, risk = Num 0, hallucinated_parts = Some []\<rparr>
      [paris]) = medium
   \<and> confidence_score (calculateConfidence
      \<lparr>verified = True, verification_rate = Num 1, reason = None\<rparr>
      \<lparr>source_relevance = lit 0.39, source_usage_rate = Num 1, ContextResult.valid = True\<rparr>
      \<lparr>detected = False, risk = Num 0, hallucinated_parts = Some []\<rparr>
      [paris]) = lit 0.8"
  by (simp add: calculateConfidence_def calculateSourceQuality_def quality_of_def paris_def
      or_default_def Math_round_def Math_min_def hundredths_def js_ge_def js_le_def js_sub_def
      js_neg_def of_count_def double_defs)

lemmas score_defs =
  calculateConfidence_def confidenceScore_def calculateSourceQuality_def quality_of_def
  or_default_def Math_round_def Math_min_def hundredths_def js_ge_def js_le_def js_gt_def
  js_sub_def js_neg_def of_count_def

text \<open>
  The sum is a sum of doubles. With rate, relevance and risk all at 0.5 and the source
  \<open>paris\<close> it is 0.49999999999999994, so the level is low and the score is 0.5; with
  rate 1, relevance 0.7 and risk 0.25 it is 0.7999999999999999, so the level is medium and
  the score is 0.8.
\<close>

lemma level_below_half:
  "level (calculateConfidence
      \<lparr>verified = True, verification_rate = lit 0.5, reason = None\<rparr>
      \<lparr>source_relevance = lit 0.5, source_usage_rate = Num 1, ContextResult.valid = True\<rparr>
      \<lparr>detected = False, risk = lit 0.5, hallucinated_parts = Some []\<rparr>
      [paris]) = low"
  by (simp add: score_defs paris_def double_defs)

lemma level_below_eight_tenths:
  "level (calculateConfidence
      \<lparr>verified = True, verification_rate = Num 1, reason = None\<rparr>
      \<lparr>source_relevance = lit 0.7, source_usage_rate = Num 1, ContextResult.valid = True\<rparr>
      \<lparr>detected = False, risk = lit 0.25, hallucinated_parts = Some []\<rparr>
      [paris]) = medium"
  by (simp add: score_defs paris_def double_defs)

lemma hundredths_ge:
  assumes "hundredths b = b" and "js_ge a b"
  shows "js_ge (hundredths a) b"
  using hundredths_mono [of b a] assms by (simp add: js_ge_def)

lemma hundredths_le:
  assumes "hundredths b = b" and "js_lt a b"
  shows "js_le (hundredths a) b"
  using hundredths_mono [of a b] assms by (simp add: js_le_def)

text \<open>
  C3, amended. The level is high iff the weighted sum before rounding is at least 0.80,
  medium iff that sum is at least 0.50 and below 0.80, and low iff it is below 0.50 or no
  number. For the returned score, the sum rounded to two decimals: high implies a score of
  at least 0.80, medium a score from 0.50 to 0.80, both included, and low a score of at
  most 0.50, or no number. The sum, the score and the bounds are doubles.
\<close>

theorem level_from_unrounded_score:
  "(level (calculateConfidence a c h srcs) = high
      \<longleftrightarrow> js_ge (confidenceScore a c h srcs) (lit 0.8))
   \<and> (level (calculateConfidence a c h srcs) = medium
        \<longleftrightarrow> js_ge (confidenceScore a c h srcs) (lit 0.5)
            \<and> js_lt (confidenceScore a c h srcs) (lit 0.8))
   \<and> (level (calculateConfidence a c h srcs) = low
        \<longleftrightarrow> js_lt (confidenceScore a c h srcs) (lit 0.5) \<or> confidenceScore a c h srcs = NaN)
   \<and> (level (calculateConfidence a c h srcs) = high
        \<longrightarrow> js_ge (confidence_score (calculateConfidence a c h srcs)) (lit 0.8))
   \<and> (level (calculateConfidence a c h srcs) = medium
        \<longrightarrow> js_ge (confidence_score (calculateConfidence a c h srcs)) (lit 0.5)
            \<and> js_le (confidence_score (calculateConfidence a c h srcs)) (lit 0.8))
   \<and> (level (calculateConfidence a c h srcs) = low
        \<longrightarrow> js_le (confidence_score (calculateConfidence a c h srcs)) (lit 0.5)
            \<or> confidence_score (calculateConfidence a c h srcs) = NaN)"
proof -
  let ?raw = "confidenceScore a c h srcs"
  let ?r = "calculateConfidence a c h srcs"
  have score: "confidence_score ?r = hundredths ?raw" by (rule confidence_score_rounds)
  have ge80: "js_ge ?raw (lit 0.8) \<Longrightarrow> js_ge (confidence_score ?r) (lit 0.8)"
    unfolding score by (rule hundredths_ge [OF hundredths_eight_tenths])
  have ge50: "js_ge ?raw (lit 0.5) \<Longrightarrow> js_ge (confidence_score ?r) (lit 0.5)"
    unfolding score by (rule hundredths_ge [OF hundredths_half])
  have le80: "js_lt ?raw (lit 0.8) \<Longrightarrow> js_le (confidence_score ?r) (lit 0.8)"
    unfolding score by (rule hundredths_le [OF hundredths_eight_tenths])
  have le50: "js_lt ?raw (lit 0.5) \<Longrightarrow> js_le (confidence_score ?r) (lit 0.5)"
    unfolding score by (rule hundredths_le [OF hundredths_half])
  have nan: "?raw = NaN \<Longrightarrow> confidence_score ?r = NaN"
    by (simp add: score)
  have lt80: "\<not> js_ge ?raw (lit 0.8) \<Longrightarrow> ?raw = NaN \<or> js_lt ?raw (lit 0.8)"
    by (rule not_ge_cases) simp_all
  have lt50: "\<not> js_ge ?raw (lit 0.5) \<Longrightarrow> ?raw = NaN \<or> js_lt ?raw (lit 0.5)"
    by (rule not_ge_cases) simp_all
  have no80: "js_lt ?raw (lit 0.8) \<Longrightarrow> \<not> js_ge ?raw (lit 0.8)" by (rule js_lt_not_ge)
  have no50: "js_lt ?raw (lit 0.5) \<Longrightarrow> \<not> js_ge ?raw (lit 0.5)" by (rule js_lt_not_ge)
  have nn80: "js_ge ?raw (lit 0.8) \<Longrightarrow> ?raw \<noteq> NaN" by (rule js_ge_not_NaN)
  have nn50: "js_ge ?raw (lit 0.5) \<Longrightarrow> ?raw \<noteq> NaN" by (rule js_ge_not_NaN)
  have up: "js_ge ?raw (lit 0.8) \<Longrightarrow> js_ge ?raw (lit 0.5)"
  proof -
    assume "js_ge ?raw (lit 0.8)"
    then have "js_le (lit 0.8) ?raw" by (simp add: js_ge_def)
    moreover have "js_le (lit 0.5) (lit 0.8)" unfolding lit_def by (rule to_double_mono) simp
    ultimately show ?thesis unfolding js_ge_def by (rule js_le_trans [rotated])
  qed
  show ?thesis
    unfolding level_of_score
    using ge80 ge50 le80 le50 nan lt80 lt50 no80 no50 nn80 nn50 up
    by (cases "js_ge ?raw (lit 0.8)"; cases "js_ge ?raw (lit 0.5)") auto
qed

theorem level_from_unrounded_score_witness:
  "js_lt (confidenceScore
      \<lparr>verified = True, verification_rate = lit 0.5, reason = None\<rparr>
      \<lparr>source_relevance = lit 0.5, source_usage_rate = Num 1, ContextResult.valid = True\<rparr>
      \<lparr>detected = False, risk = lit 0.5, hallucinated_parts = Some []\<rparr> [paris]) (lit 0.5)
   \<and> level (calculateConfidence
      \<lparr>verified = True, verification_rate = lit 0.5, reason = None\<rparr>
      \<lparr>source_relevance = lit 0.5, source_usage_rate = Num 1, ContextResult.valid = True\<rparr>
      \<lparr>detected = False, risk = lit 0.5, hallucinated_parts = Some []\<rparr> [paris]) = low
   \<and> js_le (confidence_score (calculateConfidence
      \<lparr>verified = True, verification_rate = lit 0.5, reason = None\<rparr>
      \<lparr>source_relevance = lit 0.5, source_usage_rate = Num 1, ContextResult.valid = True\<rparr>
      \<lparr>detected = False, risk = lit 0.5, hallucinated_parts = Some []\<rparr> [paris])) (lit 0.5)"
proof -
  let ?a = "\<lparr>verified = True, verification_rate = lit 0.5, reason = None\<rparr>"
  let ?c = "\<lparr>source_relevance = lit 0.5, source_usage_rate = Num 1, ContextResult.valid = True\<rparr>"
  let ?h = "\<lparr>detected = False, risk = lit 0.5, hallucinated_parts = Some []\<rparr>"
  have raw: "js_lt (confidenceScore ?a ?c ?h [paris]) (lit 0.5)"
    by (simp add: score_defs paris_def double_defs)
  have "confidence_score (calculateConfidence ?a ?c ?h [paris]) \<noteq> NaN"
    by (simp add: score_defs paris_def double_defs)
  with level_from_unrounded_score [of ?a ?c ?h "[paris]"] raw
  show ?thesis by blast
qed

lemma accuracy_of_passes_rate:
  "accuracy_of (JObj [(''verified'', JBool b), (''verification_rate'', JNum x)]) =
     Inr \<lparr>verified = b, verification_rate = (if falsy x then Num 0 else x), reason = None\<rparr>"
  by (simp add: accuracy_of_def property_def or_false_def or_zero_def or_undefined_def truthy_def)

lemma hallucination_of_passes_risk:
  "hallucination_of (JObj [(''detected'', JBool b), (''risk'', JNum x)]) =
     Inr \<lparr>detected = b, risk = (if falsy x then Num 0 else x), hallucinated_parts = Some []\<rparr>"
  by (simp add: hallucination_of_def property_def or_false_def or_zero_def or_empty_def truthy_def)

text \<open>
  \<open>calculateConfidence\<close> clamps nothing but the quality of each source, and the checkers
  hand on the rate and the risk of the judge's reply as they are. A verification rate of
  1.5 gives an accuracy score of 1.5 and a confidence score of 1.13.
\<close>

theorem unclamped_rate_counterexample:
  "accuracy_score (breakdown (calculateConfidence
      \<lparr>verified = True, verification_rate = lit 1.5, reason = None\<rparr>
      \<lparr>source_relevance = Num 1, source_usage_rate = Num 1, ContextResult.valid = True\<rparr>
      \<lparr>detected = False, risk = Num 0, hallucinated_parts = Some []\<rparr>
      [paris])) = lit 1.5
   \<and> confidence_score (calculateConfidence
      \<lparr>verified = True, verification_rate = lit 1.5, reason = None\<rparr>
      \<lparr>source_relevance = Num 1, source_usage_rate = Num 1, ContextResult.valid = True\<rparr>
      \<lparr>detected = False, risk = Num 0, hallucinated_parts = Some []\<rparr>
      [paris]) = lit 1.13
   \<and> js_gt (lit 1.13) (Num 1)"
  by (simp add: score_defs paris_def double_defs)

text \<open>
  C4, amended. When the verification rate, the source relevance and the hallucination risk
  given to \<open>calculateConfidence\<close> lie in [0,1], the confidence score and the four components
  of the breakdown lie in [0,1], for every list of sources.
\<close>

theorem scores_within_unit_interval:
  assumes "js_le (Num 0) (verification_rate a)" and "js_le (verification_rate a) (Num 1)"
    and "js_le (Num 0) (source_relevance c)" and "js_le (source_relevance c) (Num 1)"
    and "js_le (Num 0) (risk h)" and "js_le (risk h) (Num 1)"
  shows "js_le (Num 0) (confidence_score (calculateConfidence a c h srcs))
    \<and> js_le (confidence_score (calculateConfidence a c h srcs)) (Num 1)
    \<and> js_le (Num 0) (accuracy_score (breakdown (calculateConfidence a c h srcs)))
    \<and> js_le (accuracy_score (breakdown (calculateConfidence a c h srcs))) (Num 1)
    \<and> js_le (Num 0) (context_score (breakdown (calculateConfidence a c h srcs)))
    \<and> js_le (context_score (breakdown (calculateConfidence a c h srcs))) (Num 1)
    \<and> js_le (Num 0) (hallucination_score (breakdown (calculateConfidence a c h srcs)))
    \<and> js_le (hallucination_score (breakdown (calculateConfidence a c h srcs))) (Num 1)
    \<and> js_le (Num 0) (source_quality (breakdown (calculateConfidence a c h srcs)))
    \<and> js_le (source_quality (breakdown (calculateConfidence a c h srcs))) (Num 1)"
proof -
  from assms have a: "in_unit (verification_rate a)" and c: "in_unit (source_relevance c)"
    and h: "in_unit (risk h)"
    by (simp_all add: in_unit_def in_range_def)
  have q: "in_unit (calculateSourceQuality srcs)" by (rule calculateSourceQuality_in_unit)
  from h have h': "in_unit (js_sub (Num 1) (risk h))" by (rule one_minus_in_unit)
  have "in_unit (confidenceScore a c h srcs)"
    unfolding confidenceScore_def by (rule weighted_sum_in_unit [OF a c h' q])
  then have "in_unit (confidence_score (calculateConfidence a c h srcs))"
    unfolding confidence_score_rounds by (rule hundredths_in_unit)
  moreover from a have "in_unit (accuracy_score (breakdown (calculateConfidence a c h srcs)))"
    unfolding breakdown_of_score Breakdown.select_convs by (rule hundredths_in_unit)
  moreover from c have "in_unit (context_score (breakdown (calculateConfidence a c h srcs)))"
    unfolding breakdown_of_score Breakdown.select_convs by (rule hundredths_in_unit)
  moreover from h'
  have "in_unit (hallucination_score (breakdown (calculateConfidence a c h srcs)))"
    unfolding breakdown_of_score Breakdown.select_convs by (rule hundredths_in_unit)
  moreover from q have "in_unit (source_quality (breakdown (calculateConfidence a c h srcs)))"
    unfolding breakdown_of_score Breakdown.select_convs by (rule hundredths_in_unit)
  ultimately show ?thesis by (simp add: in_unit_def in_range_def)
qed

theorem scores_within_unit_interval_witness:
  "confidence_score (calculateConfidence
      \<lparr>verified = False, verification_rate = Num 0, reason = Some ''no_sources_provided''\<rparr>
      \<lparr>source_relevance = Num 0, source_usage_rate = Num 0, ContextResult.valid = False\<rparr>
      \<lparr>detected = True, risk = lit 0.8, hallucinated_parts = Some [''entire_response'']\<rparr>
      []) = lit 0.06
   \<and> js_le (Num 0) (hallucination_score (breakdown (calculateConfidence
      \<lparr>verified = False, verification_rate = Num 0, reason = Some ''no_sources_provided''\<rparr>
      \<lparr>source_relevance = Num 0, source_usage_rate = Num 0, ContextResult.valid = False\<rparr>
      \<lparr>detected = True, risk = lit 0.8, hallucinated_parts = Some [''entire_response'']\<rparr>
      [])))
   \<and> js_le (hallucination_score (breakdown (calculateConfidence
      \<lparr>verified = False, verification_rate = Num 0, reason = Some ''no_sources_provided''\<rparr>
      \<lparr>source_relevance = Num 0, source_usage_rate = Num 0, ContextResult.valid = False\<rparr>
      \<lparr>detected = True, risk = lit 0.8, hallucinated_parts = Some [''entire_response'']\<rparr>
      []))) (Num 1)"
proof -
  let ?a = "\<lparr>verified = False, verification_rate = Num 0, reason = Some ''no_sources_provided''\<rparr>"
  let ?c = "\<lparr>source_relevance = Num 0, source_usage_rate = Num 0, ContextResult.valid = False\<rparr>"
  let ?h = "\<lparr>detected = True, risk = lit 0.8, hallucinated_parts = Some [''entire_response'']\<rparr>"
  have score: "confidence_score (calculateConfidence ?a ?c ?h []) = lit 0.06"
    by (simp add: score_defs double_defs)
  have risk: "js_le (Num 0) (lit 0.8) \<and> js_le (lit 0.8) (Num 1)"
    by (simp add: double_defs)
  from scores_within_unit_interval [of ?a ?c ?h "[]"] score risk
  show ?thesis by simp
qed

section \<open>The threshold\<close>

lemma new_zero_threshold_validator:
  "new_AIValidator (openai_config\<lparr>confidenceThreshold := Some (Num 0)\<rparr>) = Inr zero_threshold_validator"
  by (simp add: new_AIValidator_def openai_config_def openai_validator_def with_defaults_def
      validateConfig_def or_default_def default_to_def new_clients_def zero_threshold_validator_def)

lemma new_unclassified_validator:
  "new_AIValidator (openai_config\<lparr>enableQueryClassification := Some False\<rparr>) =
     Inr unclassified_validator"
  by (simp add: new_AIValidator_def openai_config_def openai_validator_def with_defaults_def
      validateConfig_def or_default_def default_to_def new_clients_def unclassified_validator_def)

lemma boiling_point_text:
  "toLowerCase (trim ''What is the boiling point of water?'') =
     ''what is the boiling point of water?''"
  by code_simp

lemma boiling_point_no_pattern:
  "first_match patterns ''what is the boiling point of water?'' = None"
  by code_simp

lemma classify_boiling_point:
  "classifyQuery ''What is the boiling point of water?'' =
     \<lparr>type = question, QueryClassificationResult.confidence = lit 0.8,
      QueryClassificationResult.skip_validation = False\<rparr>"
  by (simp add: classifyQuery_def boiling_point_text boiling_point_no_pattern js_includes_def)

lemma validate_not_skipped:
  assumes "\<not> (enabled (enableQueryClassification (config v))
      \<and> QueryClassificationResult.skip_validation (classifyQuery (query input)))"
  shows "fst (validate v e input) =
     (let a = (if enabled (enableAccuracyCheck (config v))
               then fst (checkAccuracy e (accuracyChecker v) (response input) (sources input)
                      (llmProvider (config v)) (Some (getModel (config v))))
               else \<lparr>verified = True, verification_rate = Num 1, reason = None\<rparr>);
          c = calculateContextRelevance (query input) (response input) (sources input);
          h = (if enabled (enableHallucinationDetection (config v))
               then fst (detectHallucination e (hallucinationDetector v) (response input)
                      (sources input) (llmProvider (config v)) (Some (getModel (config v))))
               else \<lparr>detected = False, risk = Num 0, hallucinated_parts = None\<rparr>);
          score = confidence_score (calculateConfidence a c h (sources input))
      in \<lparr>confidence = score,
          valid = js_ge score (threshold_or_default (confidenceThreshold (config v))),
          accuracy = a, context = c, hallucination = h,
          warnings = generateWarnings a c h (sources input),
          query_type = None, skip_validation = None\<rparr>)"
  using assms unfolding validate_def Let_def
  by (auto split: prod.splits)

lemma valid_is_threshold_test:
  assumes "\<not> (enabled (enableQueryClassification (config v))
      \<and> QueryClassificationResult.skip_validation (classifyQuery (query input)))"
  shows "valid (fst (validate v e input)) =
     js_ge (confidence (fst (validate v e input)))
       (threshold_or_default (confidenceThreshold (config v)))"
  unfolding validate_not_skipped [OF assms] Let_def by simp

lemma threshold_respected_unless_zero:
  assumes "\<not> (enabled (enableQueryClassification (config v))
      \<and> QueryClassificationResult.skip_validation (classifyQuery (query input)))"
    and "confidenceThreshold (config v) = Some t" and "\<not> falsy t"
  shows "valid (fst (validate v e input)) = js_ge (confidence (fst (validate v e input))) t"
  using valid_is_threshold_test [OF assms(1)] assms(2,3)
  by (simp add: threshold_or_default_def)

lemma default_threshold:
  "threshold_or_default (confidenceThreshold (with_defaults (c\<lparr>confidenceThreshold := None\<rparr>)))
     = lit 0.7"
  by (simp add: with_defaults_def default_to_def threshold_or_default_def)

lemma boiling_point_not_skipped:
  "\<not> (enabled (enableQueryClassification (config zero_threshold_validator))
      \<and> QueryClassificationResult.skip_validation (classifyQuery (query boiling_point)))"
  by (simp add: boiling_point_def classify_boiling_point)

text \<open>
  C5. The specification: for every configured threshold \<open>t\<close>, a validation that is not
  skipped returns \<open>valid = (confidence_score \<ge> t)\<close>. \<open>validate\<close> reads the threshold as
  \<open>confidenceThreshold || 0.7\<close>, and 0 is falsy: with the threshold 0, the question about the
  boiling point of water and no source, the run is not skipped, the confidence is 0.06,
  which is at least 0, and \<open>valid\<close> is false. For every other threshold the equation
  holds (\<open>threshold_respected_unless_zero\<close>).
\<close>

theorem zero_threshold_is_replaced:
  "confidenceThreshold (config zero_threshold_validator) = Some (Num 0)
   \<and> skip_validation (fst (validate zero_threshold_validator e boiling_point)) = None
   \<and> confidence (fst (validate zero_threshold_validator e boiling_point)) = lit 0.06
   \<and> js_ge (lit 0.06) (Num 0)
   \<and> valid (fst (validate zero_threshold_validator e boiling_point)) = False"
proof -
  have t: "confidenceThreshold (config zero_threshold_validator) = Some (Num 0)"
    by (simp add: zero_threshold_validator_def)
  have s: "sources boiling_point = []" by (simp add: boiling_point_def)
  have on: "enabled (enableAccuracyCheck (config zero_threshold_validator))"
      "enabled (enableHallucinationDetection (config zero_threshold_validator))"
    by (simp_all add: zero_threshold_validator_def openai_validator_def with_defaults_def
        openai_config_def default_to_def enabled_def)
  show ?thesis
    unfolding validate_not_skipped [OF boiling_point_not_skipped] Let_def
    by (simp add: t s on checkAccuracy_def detectHallucination_def calculateContextRelevance_def
        threshold_or_default_def falsy_def score_defs double_defs)
qed

section \<open>A judge that fails\<close>

text \<open>
  C6. With at least one source, when the call of the judge throws \<open>err\<close> (or the client of
  the provider is missing, which throws the error "LLM provider ... not available"), the
  exception does not leave the checker: \<open>checkAccuracy\<close> returns unverified, rate 0 and the
  reason \<open>accuracy_check_failed: \<close> followed by the description of the failure, which is the
  message of a thrown \<open>Error\<close> and \<open>unknown error\<close> for any other thrown value;
  \<open>detectHallucination\<close> returns detected with risk 0.9.
\<close>

theorem judge_failure_is_caught:
  assumes "srcs \<noteq> []"
    and "p = openai \<and> has_openai cl \<longrightarrow> (\<forall>req. openai_create e req = Inl err)"
    and "p = claude \<and> has_claude cl \<longrightarrow> (\<forall>req. claude_create e req = Inl err)"
    and "(p = openai \<longrightarrow> \<not> has_openai cl) \<and> (p = claude \<longrightarrow> \<not> has_claude cl) \<longrightarrow>
      err = Error (''LLM provider '' @ provider_name p @ '' not available'')"
  shows "fst (checkAccuracy e cl r srcs p m) =
       \<lparr>verified = False, verification_rate = Num 0,
        reason = Some (''accuracy_check_failed: '' @ message err)\<rparr>
     \<and> fst (detectHallucination e cl r srcs p m) =
       \<lparr>detected = True, risk = lit 0.9,
        hallucinated_parts = Some [''hallucination_check_failed'']\<rparr>"
proof (cases p)
  case openai
  with assms show ?thesis
    by (cases "has_openai cl")
      (simp_all add: checkAccuracy_def detectHallucination_def checkAccuracyWithOpenAI_def
        detectHallucinationWithOpenAI_def Let_def)
next
  case claude
  with assms show ?thesis
    by (cases "has_claude cl")
      (simp_all add: checkAccuracy_def detectHallucination_def checkAccuracyWithClaude_def
        detectHallucinationWithClaude_def Let_def)
qed

theorem judge_failure_is_caught_witness:
  "[paris] \<noteq> []
   \<and> has_openai (new_clients (Some ''sk-test'') None)
   \<and> (\<forall>req. openai_create throwing_env req = Inl (Error ''Request timed out.''))
   \<and> fst (checkAccuracy throwing_env (new_clients (Some ''sk-test'') None)
        ''Paris is in Spain'' [paris] openai None) =
       \<lparr>verified = False, verification_rate = Num 0,
        reason = Some ''accuracy_check_failed: Request timed out.''\<rparr>
   \<and> fst (detectHallucination throwing_env (new_clients (Some ''sk-test'') None)
        ''Paris is in Spain'' [paris] openai None) =
       \<lparr>detected = True, risk = lit 0.9,
        hallucinated_parts = Some [''hallucination_check_failed'']\<rparr>"
proof -
  let ?cl = "new_clients (Some ''sk-test'') None"
  let ?err = "Error ''Request timed out.''"
  have ne: "[paris] \<noteq> []" by simp
  have ok: "has_openai ?cl" by (simp add: new_clients_def or_default_def)
  have thrown: "\<forall>req. openai_create throwing_env req = Inl ?err"
    by (simp add: throwing_env_def)
  have a: "openai = openai \<and> has_openai ?cl \<longrightarrow> (\<forall>req. openai_create throwing_env req = Inl ?err)"
    using thrown by simp
  have b: "openai = claude \<and> has_claude ?cl \<longrightarrow> (\<forall>req. claude_create throwing_env req = Inl ?err)"
    by simp
  have c: "(openai = openai \<longrightarrow> \<not> has_openai ?cl) \<and> (openai = claude \<longrightarrow> \<not> has_claude ?cl) \<longrightarrow>
      ?err = Error (''LLM provider '' @ provider_name openai @ '' not available'')"
    using ok by simp
  from judge_failure_is_caught [OF ne a b c, where r = "''Paris is in Spain''" and m = None]
  have "fst (checkAccuracy throwing_env ?cl ''Paris is in Spain'' [paris] openai None) =
       \<lparr>verified = False, verification_rate = Num 0,
        reason = Some ''accuracy_check_failed: Request timed out.''\<rparr>
     \<and> fst (detectHallucination throwing_env ?cl ''Paris is in Spain'' [paris] openai None) =
       \<lparr>detected = True, risk = lit 0.9,
        hallucinated_parts = Some [''hallucination_check_failed'']\<rparr>"
    by (simp add: message_def)
  with ne ok thrown show ?thesis by blast
qed

section \<open>A reply that is no JSON\<close>






subsection \<open>What the stripping removes\<close>






lemma dropWhile_spaces:
  assumes "list_all isSpace ws" and "s = [] \<or> \<not> isSpace (hd s)"
  shows "dropWhile isSpace (ws @ s) = s"
  using assms by (induction ws) (auto simp add: dropWhile_eq_self_iff)




lemma trim_trimmed:
  assumes "trimmed body" and "list_all isSpace ws"
  shows "trim (body @ ws) = body"
proof (cases body)
  case Nil
  from assms(2) have d: "dropWhile isSpace ws = []" by (simp add: list_all_iff)
  show ?thesis unfolding Nil trim_def append_Nil d by simp
next
  case (Cons c cs)
  with assms(1) have first: "\<not> isSpace (hd body)" and last: "\<not> isSpace (last body)"
    and ne: "body \<noteq> []"
    by (simp_all add: trimmed_def)
  from first ne have 1: "dropWhile isSpace (body @ ws) = body @ ws"
    by (cases body) simp_all
  from ne last have h: "rev body = [] \<or> \<not> isSpace (hd (rev body))"
    by (simp add: hd_rev)
  from assms(2) have "list_all isSpace (rev ws)" by (simp add: list_all_iff)
  from dropWhile_spaces [OF this h] have 2: "dropWhile isSpace (rev ws @ rev body) = rev body" .
  show ?thesis by (simp add: trim_def 1 2)
qed





section \<open>Context relevance as lexical overlap\<close>


subsection \<open>Lower case and punctuation\<close>

lemma lower_char_enum:
  "list_all (\<lambda>c. lower_char c = spec_lower c) (Enum.enum :: char list)"
  by code_simp


lemma lower_char_spec: "lower_char c = spec_lower c"
proof -
  have "c \<in> set (Enum.enum :: char list)" by (simp add: enum_UNIV)
  with lower_char_enum show ?thesis unfolding list_all_iff by blast
qed


lemma toLowerCase_spec: "toLowerCase s = map spec_lower s"
  by (simp add: toLowerCase_def lower_char_spec)


subsection \<open>Splitting at white space\<close>

lemma words_Nil [simp]: "words [] = []"
  by (simp add: words.simps)

















section \<open>The precedence of the classifier\<close>

lemma classify_as_chain:
  "classifyQuery q = classify_chain startsWith (toLowerCase (trim q))"
  unfolding classifyQuery_def classify_chain_def patterns_def interrogatives_def Let_def
  by (simp add: js_includes_def)

lemma chain_without_match:
  assumes "first_match patterns t = None"
  shows "classify_chain starts t =
     (if length t \<le> 10
      then \<lparr>type = greeting, QueryClassificationResult.confidence = lit 0.7,
            QueryClassificationResult.skip_validation = True\<rparr>
      else if CHR ''?'' \<in> set t \<or> list_ex (starts t) interrogatives
      then \<lparr>type = question, QueryClassificationResult.confidence = lit 0.8,
            QueryClassificationResult.skip_validation = False\<rparr>
      else \<lparr>type = question, QueryClassificationResult.confidence = lit 0.6,
            QueryClassificationResult.skip_validation = False\<rparr>)"
proof -
  from assms have "\<not> alternation_at greeting_texts t" and "\<not> search typo_texts t"
    and "\<not> alternation_at small_talk_texts t" and "\<not> alternation_at clarification_texts t"
    and "\<not> alternation_at meta_texts t"
    by (simp_all add: patterns_def split: if_splits)
  then show ?thesis by (simp add: classify_chain_def)
qed

lemma trim_leading:
  assumes "list_all isSpace ws"
  shows "trim (ws @ s) = trim s"
proof -
  from assms have "dropWhile isSpace (ws @ s) = dropWhile isSpace s"
    by (simp add: list_all_iff dropWhile_append2)
  then show ?thesis by (simp add: trim_def)
qed

lemma trim_decomposed:
  assumes "list_all isSpace wsa" and "list_all isSpace wsb" and "trimmed core"
  shows "trim (wsa @ core @ wsb) = core"
  by (simp only: trim_leading [OF assms(1)] trim_trimmed [OF assms(3,2)])

lemma trim_decomposition:
  "\<exists>wsa core wsb. q = wsa @ core @ wsb \<and> list_all isSpace wsa \<and> list_all isSpace wsb
     \<and> trimmed core"
proof -
  define wsa where "wsa = takeWhile isSpace q"
  define rest where "rest = dropWhile isSpace q"
  define core where "core = rev (dropWhile isSpace (rev rest))"
  define wsb where "wsb = rev (takeWhile isSpace (rev rest))"
  have q: "q = wsa @ rest" by (simp add: wsa_def rest_def)
  have "rev (takeWhile isSpace (rev rest) @ dropWhile isSpace (rev rest)) = rev (rev rest)"
    by (simp only: takeWhile_dropWhile_id)
  then have "rev (dropWhile isSpace (rev rest)) @ rev (takeWhile isSpace (rev rest)) = rest"
    by (simp only: rev_append rev_rev_ident)
  then have rest: "rest = core @ wsb" unfolding core_def wsb_def by (rule sym)
  have a: "list_all isSpace wsa"
    unfolding wsa_def list_all_iff using set_takeWhileD [of _ isSpace q] by blast
  have b: "list_all isSpace wsb"
    unfolding wsb_def list_all_iff using set_takeWhileD [of _ isSpace "rev rest"] by auto
  have t: "trimmed core"
  proof (cases core)
    case Nil
    then show ?thesis by (simp add: trimmed_def)
  next
    case (Cons c cs)
    with rest have "rest = c # cs @ wsb" by simp
    then have "hd (dropWhile isSpace q) = c" and "dropWhile isSpace q \<noteq> []"
      by (simp_all add: rest_def)
    with hd_dropWhile [of isSpace q] have first: "\<not> isSpace c" by auto
    from Cons have ne: "dropWhile isSpace (rev rest) \<noteq> []" by (auto simp add: core_def)
    from hd_dropWhile [OF ne] have "\<not> isSpace (hd (dropWhile isSpace (rev rest)))" .
    moreover have "last core = hd (dropWhile isSpace (rev rest))"
      unfolding core_def using ne by (simp add: last_rev)
    ultimately have "\<not> isSpace (last core)" by simp
    with first Cons show ?thesis by (simp add: trimmed_def)
  qed
  from q rest a b t show ?thesis by auto
qed

lemma however_text:
  "toLowerCase (trim ''However you slice it this is fine'') = ''however you slice it this is fine''"
  "map spec_lower ''However you slice it this is fine'' = ''however you slice it this is fine''"
  by code_simp+

lemma however_no_pattern: "first_match patterns ''however you slice it this is fine'' = None"
  by code_simp

lemma however_no_word:
  "list_ex (starts_with_word ''however you slice it this is fine'') interrogatives = False"
  "list_ex (startsWith ''however you slice it this is fine'') interrogatives = True"
  by code_simp+

text \<open>
  The test for an interrogative is a test of the first letters. The query "However you
  slice it this is fine" matches no pattern, has more than 10 characters and no question
  mark, and starts with no interrogative word, only with the letters of "how": the
  classifier gives it the confidence 0.8, where the chain of the claim, with the test for
  a word, gives 0.6.
\<close>

theorem interrogative_prefix_counterexample:
  "classifyQuery ''However you slice it this is fine'' =
     \<lparr>type = question, QueryClassificationResult.confidence = lit 0.8,
      QueryClassificationResult.skip_validation = False\<rparr>
   \<and> classify_chain starts_with_word (map spec_lower ''However you slice it this is fine'') =
     \<lparr>type = question, QueryClassificationResult.confidence = lit 0.6,
      QueryClassificationResult.skip_validation = False\<rparr>"
  unfolding classify_as_chain however_text chain_without_match [OF however_no_pattern]
    however_no_word
  by simp

text \<open>
  C9, amended. Every query is a text without white space at its ends, possibly between
  two runs of white space. On that text in lower case the classifier tries greeting, typo,
  small talk, clarification and meta in this order, and the first pattern that matches
  decides, with confidence 0.9 and \<open>skip_validation\<close> for all but clarification; with no
  match, a text of at most 10 characters is a greeting with confidence 0.7 to skip;
  otherwise a text with a question mark, or one that starts with the letters of how, what,
  when, where, why, who or which (a word need not end there), is a question with
  confidence 0.8; any other text is a question with confidence 0.6; no question is skipped.
\<close>

theorem classifier_precedence:
  "(\<exists>wsa core wsb. q = wsa @ core @ wsb \<and> list_all isSpace wsa \<and> list_all isSpace wsb
      \<and> trimmed core)
   \<and> (q = wsa @ core @ wsb \<and> list_all isSpace wsa \<and> list_all isSpace wsb \<and> trimmed core
      \<longrightarrow> classifyQuery q = classify_chain startsWith (map spec_lower core))"
proof (intro conjI impI)
  show "\<exists>wsa core wsb. q = wsa @ core @ wsb \<and> list_all isSpace wsa \<and> list_all isSpace wsb
      \<and> trimmed core"
    by (rule trim_decomposition)
next
  assume "q = wsa @ core @ wsb \<and> list_all isSpace wsa \<and> list_all isSpace wsb \<and> trimmed core"
  then have "trim q = core" using trim_decomposed by blast
  then show "classifyQuery q = classify_chain startsWith (map spec_lower core)"
    by (simp add: classify_as_chain toLowerCase_spec)
qed

lemma library_text:
  "map spec_lower ''WHERE is the library located'' = ''where is the library located''"
  by code_simp

lemma library_no_pattern: "first_match patterns ''where is the library located'' = None"
  by code_simp

theorem classifier_precedence_witness:
  "''  WHERE is the library located  '' = ''  '' @ ''WHERE is the library located'' @ ''  ''
   \<and> list_all isSpace ''  '' \<and> trimmed ''WHERE is the library located''
   \<and> classify_chain startsWith (map spec_lower ''WHERE is the library located'') =
       \<lparr>type = question, QueryClassificationResult.confidence = lit 0.8,
        QueryClassificationResult.skip_validation = False\<rparr>
   \<and> classifyQuery ''  WHERE is the library located  '' =
       \<lparr>type = question, QueryClassificationResult.confidence = lit 0.8,
        QueryClassificationResult.skip_validation = False\<rparr>"
proof -
  let ?q = "''  WHERE is the library located  ''"
  let ?core = "''WHERE is the library located''"
  have shape: "?q = ''  '' @ ?core @ ''  ''" by simp
  have ws: "list_all isSpace ''  ''" by (simp add: isSpace_def)
  have core: "trimmed ?core" by (simp add: trimmed_def isSpace_def)
  have chain: "classify_chain startsWith (map spec_lower ?core) =
       \<lparr>type = question, QueryClassificationResult.confidence = lit 0.8,
        QueryClassificationResult.skip_validation = False\<rparr>"
    unfolding library_text chain_without_match [OF library_no_pattern]
    by (simp add: interrogatives_def)
  from classifier_precedence [of ?q "''  ''" ?core "''  ''"] shape ws core
  have "classifyQuery ?q = classify_chain startsWith (map spec_lower ?core)" by blast
  with shape ws core chain show ?thesis by simp
qed

section \<open>Queries skipped by their letters\<close>

lemma startsWith_append: "startsWith s m \<Longrightarrow> \<exists>post. s = m @ post"
  by (induction s m rule: startsWith.induct) auto

lemma contains_split: "contains s m \<Longrightarrow> \<exists>pre post. s = pre @ m @ post"
proof (induction s)
  case Nil
  then show ?case using startsWith_append [of "[]" m] by auto
next
  case (Cons c cs)
  from Cons.prems have "startsWith (c # cs) m \<or> contains cs m" by simp
  then show ?case
  proof
    assume "startsWith (c # cs) m"
    then obtain post where "c # cs = m @ post" using startsWith_append by blast
    then have "c # cs = [] @ m @ post" by simp
    then show ?thesis by blast
  next
    assume "contains cs m"
    with Cons.IH obtain pre post where "cs = pre @ m @ post" by blast
    then have "c # cs = (c # pre) @ m @ post" by simp
    then show ?thesis by blast
  qed
qed

lemma matches_at_prefix: "matches_at p (p @ rest)"
  by (induction p) auto

lemma alternation_at_search: "alternation_at alts s \<Longrightarrow> search alts s"
  by (cases s) auto

lemma search_infix:
  assumes "m \<in> set alts"
  shows "search alts (pre @ m @ post)"
proof (induction pre)
  case Nil
  from assms have "alternation_at alts (m @ post)"
    by (auto simp add: alternation_at_def list_ex_iff intro: matches_at_prefix)
  then show ?case by (simp add: alternation_at_search)
next
  case (Cons c pre)
  then show ?case by simp
qed

lemma dropWhile_keeps_infix:
  assumes "m \<noteq> []" and "\<not> P (hd m)"
  shows "\<exists>pre'. dropWhile P (pre @ m @ post) = pre' @ m @ post"
proof (induction pre)
  case Nil
  from assms obtain x xs where "m = x # xs" "\<not> P x" by (cases m) auto
  then have "dropWhile P ([] @ m @ post) = [] @ m @ post" by simp
  then show ?case by blast
next
  case (Cons c pre)
  show ?case
  proof (cases "P c")
    case True
    with Cons show ?thesis by simp
  next
    case False
    then have "dropWhile P ((c # pre) @ m @ post) = (c # pre) @ m @ post" by simp
    then show ?thesis by blast
  qed
qed

lemma trim_keeps_infix:
  assumes "m \<noteq> []" and "\<not> isSpace (hd m)" and "\<not> isSpace (last m)"
  shows "\<exists>pre' post'. trim (pre @ m @ post) = pre' @ m @ post'"
proof -
  from dropWhile_keeps_infix [where P = isSpace and m = m and pre = pre and post = post, OF assms(1) assms(2)]
  obtain pre' where a: "dropWhile isSpace (pre @ m @ post) = pre' @ m @ post" by blast
  have r1: "rev m \<noteq> []" and r2: "\<not> isSpace (hd (rev m))"
    using assms by (simp_all add: hd_rev)
  from dropWhile_keeps_infix [where P = isSpace and m = "rev m" and pre = "rev post" and post = "rev pre'", OF r1 r2]
  obtain post' where b: "dropWhile isSpace (rev post @ rev m @ rev pre') = post' @ rev m @ rev pre'"
    by blast
  have "trim (pre @ m @ post) = pre' @ m @ rev post'"
    by (simp add: trim_def a b)
  then show ?thesis by blast
qed

lemma typo_texts_plain:
  "list_all (\<lambda>m. m \<noteq> [] \<and> \<not> isSpace (hd m) \<and> \<not> isSpace (last m) \<and> toLowerCase m = m) typo_texts"
  by (simp add: typo_texts_def string_defs)

lemma misspelling_found:
  assumes "contains_misspelling q"
  shows "search typo_texts (toLowerCase (trim q))"
proof -
  from assms obtain m where m: "m \<in> set typo_texts" and c: "contains q m"
    by (auto simp add: contains_misspelling_def list_ex_iff)
  from typo_texts_plain m
  have p: "m \<noteq> []" "\<not> isSpace (hd m)" "\<not> isSpace (last m)" "toLowerCase m = m"
    by (auto simp add: list_all_iff)
  from contains_split [OF c] obtain pre post where "q = pre @ m @ post" by blast
  with trim_keeps_infix [OF p(1) p(2) p(3), where pre = pre and post = post]
  obtain pre' post' where "trim q = pre' @ m @ post'" by auto
  then have "toLowerCase (trim q) = toLowerCase pre' @ m @ toLowerCase post'"
    using p(4) by (simp add: toLowerCase_def)
  with search_infix [OF m] show ?thesis by simp
qed

lemma hi_is_greeting:
  assumes "startsWith t ''hi''"
  shows "alternation_at greeting_texts t"
proof -
  from startsWith_append [OF assms] obtain post where "t = ''hi'' @ post" by blast
  then have "matches_at ''hi'' t" using matches_at_prefix [of "''hi''" post] by simp
  then show ?thesis by (simp add: alternation_at_def greeting_texts_def)
qed

lemma greeting_first:
  assumes "alternation_at greeting_texts (toLowerCase (trim q))"
  shows "classifyQuery q =
     \<lparr>type = greeting, QueryClassificationResult.confidence = lit 0.9,
      QueryClassificationResult.skip_validation = True\<rparr>"
  using assms unfolding classifyQuery_def patterns_def Let_def
  by (simp add: js_includes_def)

text \<open>
  A query with a listed misspelling that starts like a greeting is a greeting, not a typo;
  and a validator with query classification disabled runs the checks on a query that
  starts with "hi" (here without sources: the result is not valid).
\<close>

theorem lexical_skip_counterexample:
  "contains_misspelling ''hi, did you recieve it''
   \<and> type (classifyQuery ''hi, did you recieve it'') = greeting
   \<and> startsWith (toLowerCase (trim ''history of Rome?'')) ''hi''
   \<and> valid (fst (validate unclassified_validator throwing_env
        \<lparr>query = ''history of Rome?'', response = ''Rome was founded in 753 BC'', sources = []\<rparr>))
      = False"
proof -
  have a: "contains_misspelling ''hi, did you recieve it''" by code_simp
  have "startsWith (toLowerCase (trim ''hi, did you recieve it'')) ''hi''" by code_simp
  then have b: "type (classifyQuery ''hi, did you recieve it'') = greeting"
    by (simp add: greeting_first hi_is_greeting)
  have c: "startsWith (toLowerCase (trim ''history of Rome?'')) ''hi''" by code_simp
  have d: "valid (fst (validate unclassified_validator throwing_env
        \<lparr>query = ''history of Rome?'', response = ''Rome was founded in 753 BC'', sources = []\<rparr>))
      = False"
    by (simp add: validate_def Let_def unclassified_validator_def openai_validator_def
        with_defaults_def openai_config_def default_to_def enabled_def checkAccuracy_def
        detectHallucination_def calculateContextRelevance_def threshold_or_default_def
        falsy_def score_defs double_defs)
  from a b c d show ?thesis by blast
qed

text \<open>
  C10, amended. The greeting pattern has no word boundary and the typo pattern is searched
  anywhere: a query whose trimmed, lowercased text starts with the letters "hi", and a query
  that contains a listed misspelling, classify with confidence 0.9 and \<open>skip_validation\<close>;
  the first kind as greeting, the second as typo unless the greeting pattern matches too,
  which comes first. For such a query, when query classification is enabled, \<open>validate\<close>
  returns the skipped result (confidence 1, valid) and calls no judge.
\<close>

theorem skippable_by_prefix_or_misspelling:
  assumes "startsWith (toLowerCase (trim q)) ''hi'' \<or> contains_misspelling q"
  shows "classifyQuery q =
       \<lparr>type = (if alternation_at greeting_texts (toLowerCase (trim q)) then greeting else typo),
        QueryClassificationResult.confidence = lit 0.9,
        QueryClassificationResult.skip_validation = True\<rparr>
     \<and> (startsWith (toLowerCase (trim q)) ''hi'' \<longrightarrow> type (classifyQuery q) = greeting)
     \<and> (enabled (enableQueryClassification (config v)) \<longrightarrow>
          validate v e \<lparr>query = q, response = r, sources = srcs\<rparr> =
            (skipped_result (type (classifyQuery q)), []))"
proof -
  let ?t = "toLowerCase (trim q)"
  from assms have m: "alternation_at greeting_texts ?t \<or> search typo_texts ?t"
    using hi_is_greeting misspelling_found by blast
  have cls: "classifyQuery q =
       \<lparr>type = (if alternation_at greeting_texts ?t then greeting else typo),
        QueryClassificationResult.confidence = lit 0.9,
        QueryClassificationResult.skip_validation = True\<rparr>"
    using m unfolding classifyQuery_def patterns_def Let_def
    by (auto simp add: js_includes_def)
  have hi: "startsWith ?t ''hi'' \<longrightarrow> type (classifyQuery q) = greeting"
    using hi_is_greeting [of ?t] by (simp add: cls)
  have skip: "QueryClassificationResult.skip_validation (classifyQuery q)"
    by (simp add: cls)
  have val: "enabled (enableQueryClassification (config v)) \<longrightarrow>
      validate v e \<lparr>query = q, response = r, sources = srcs\<rparr> =
        (skipped_result (type (classifyQuery q)), [])"
    using skip by (simp add: validate_def skipped_result_def Let_def)
  from cls hi val show ?thesis by blast
qed

lemma recieve_not_greeting:
  "alternation_at greeting_texts (toLowerCase (trim ''Did I recieve the package?'')) = False"
  by code_simp

lemma recieve_contains: "contains_misspelling ''Did I recieve the package?''"
  by code_simp

theorem skippable_by_prefix_or_misspelling_witness:
  "contains_misspelling ''Did I recieve the package?''
   \<and> classifyQuery ''Did I recieve the package?'' =
       \<lparr>type = typo, QueryClassificationResult.confidence = lit 0.9,
        QueryClassificationResult.skip_validation = True\<rparr>
   \<and> validate openai_validator throwing_env
        \<lparr>query = ''Did I recieve the package?'', response = ''Yes'', sources = [paris]\<rparr> =
       (skipped_result typo, [])"
proof -
  let ?q = "''Did I recieve the package?''"
  have h: "startsWith (toLowerCase (trim ?q)) ''hi'' \<or> contains_misspelling ?q"
    using recieve_contains by simp
  from skippable_by_prefix_or_misspelling
    [OF h, where v = openai_validator and e = throwing_env and r = "''Yes''" and srcs = "[paris]"]
  have cls: "classifyQuery ?q =
       \<lparr>type = typo, QueryClassificationResult.confidence = lit 0.9,
        QueryClassificationResult.skip_validation = True\<rparr>"
    and val: "enabled (enableQueryClassification (config openai_validator)) \<longrightarrow>
      validate openai_validator throwing_env \<lparr>query = ?q, response = ''Yes'', sources = [paris]\<rparr> =
        (skipped_result (type (classifyQuery ?q)), [])"
    by (simp_all add: recieve_not_greeting)
  from val classification_enabled_by_default cls
  have "validate openai_validator throwing_env \<lparr>query = ?q, response = ''Yes'', sources = [paris]\<rparr> =
        (skipped_result typo, [])"
    by simp
  with recieve_contains cls show ?thesis by blast
qed

end
